theory Spec2Isabelle
  imports Complex_Main "HOL-Library.Word" "HOL-Library.Sublist"
begin

unbundle bit_operations_syntax

section \<open>Python values used by relay.py\<close>

text \<open>
  A Python \<open>str\<close> is a sequence of Unicode code points and a \<open>bytes\<close> object a sequence
  of octets. The truncation marker of line 149 is U+2026, so strings cannot be lists of
  8-bit characters: they are lists of code points.
\<close>

type_synonym codepoint = nat
type_synonym pystr = "codepoint list"
type_synonym byte = "8 word"

definition lit :: "string \<Rightarrow> pystr" where
  "lit s = map of_char s"

subsection \<open>\<open>str.strip()\<close> and \<open>str.upper()\<close>\<close>

text \<open>
  \<open>str.strip()\<close> without argument removes the leading and the trailing characters for
  which \<open>str.isspace\<close> holds; the table is CPython's \<open>_PyUnicode_IsWhitespace\<close>.
\<close>

definition isspace :: "codepoint \<Rightarrow> bool" where
  "isspace c =
     ((0x09 \<le> c \<and> c \<le> 0x0D) \<or> (0x1C \<le> c \<and> c \<le> 0x20) \<or> c = 0x85 \<or> c = 0xA0 \<or>
      c = 0x1680 \<or> (0x2000 \<le> c \<and> c \<le> 0x200A) \<or> c = 0x2028 \<or> c = 0x2029 \<or>
      c = 0x202F \<or> c = 0x205F \<or> c = 0x3000)"

definition strip :: "pystr \<Rightarrow> pystr" where
  "strip s = rev (dropWhile isspace (rev (dropWhile isspace s)))"

text \<open>
  \<open>str.upper()\<close> maps every character through Unicode's full upper-case mapping, which
  may yield several code points. On ASCII the mapping is fixed (a-z to A-Z); beyond ASCII
  it is the table of the interpreter's Unicode database, taken here as the parameter
  \<open>tou\<close>.
\<close>

definition upper_char :: "(codepoint \<Rightarrow> pystr) \<Rightarrow> codepoint \<Rightarrow> pystr" where
  "upper_char tou c =
     (if 0x61 \<le> c \<and> c \<le> 0x7A then [c - 0x20] else if c < 0x80 then [c] else tou c)"

definition upper :: "(codepoint \<Rightarrow> pystr) \<Rightarrow> pystr \<Rightarrow> pystr" where
  "upper tou s = concat (map (upper_char tou) s)"

subsection \<open>\<open>bytes.decode('utf-8', errors=...)\<close>\<close>

text \<open>
  The UTF-8 codec of CPython scans the input from left to right. At each position it
  either recognises one well-formed sequence (one to four bytes, with the restrictions
  on the second byte after E0, ED, F0 and F4 that exclude overlong forms, surrogates and
  values above U+10FFFF), or reports an error that spans the lead byte and the
  continuation bytes accepted so far, and resumes behind it. The error handler decides
  what an error becomes: \<open>strict\<close> raises UnicodeDecodeError, \<open>ignore\<close> produces nothing,
  \<open>replace\<close> produces U+FFFD.
\<close>

datatype errors = Strict | Ignore | Replace

datatype segment = Wellformed "byte list" | Malformed "byte list"

definition is_continuation :: "byte \<Rightarrow> bool" where
  "is_continuation b = (0x80 \<le> b \<and> b < 0xC0)"

definition second_of3 :: "byte \<Rightarrow> byte \<Rightarrow> bool" where
  "second_of3 b0 b1 =
     (is_continuation b1 \<and> \<not> (if b1 < 0xA0 then b0 = 0xE0 else b0 = 0xED))"

definition second_of4 :: "byte \<Rightarrow> byte \<Rightarrow> bool" where
  "second_of4 b0 b1 =
     (is_continuation b1 \<and> \<not> (if b1 < 0x90 then b0 = 0xF0 else b0 = 0xF4))"

fun utf8_segments :: "byte list \<Rightarrow> segment list" where
  "utf8_segments [] = []"
| "utf8_segments (b0 # bs) =
     (if b0 < 0x80 then Wellformed [b0] # utf8_segments bs
      else if b0 < 0xC2 then Malformed [b0] # utf8_segments bs
      else if b0 < 0xE0 then
        (case bs of
           [] \<Rightarrow> [Malformed [b0]]
         | b1 # bs1 \<Rightarrow>
             if is_continuation b1 then Wellformed [b0, b1] # utf8_segments bs1
             else Malformed [b0] # utf8_segments bs)
      else if b0 < 0xF0 then
        (case bs of
           [] \<Rightarrow> [Malformed [b0]]
         | b1 # bs1 \<Rightarrow>
             if \<not> second_of3 b0 b1 then Malformed [b0] # utf8_segments bs
             else
               (case bs1 of
                  [] \<Rightarrow> [Malformed [b0, b1]]
                | b2 # bs2 \<Rightarrow>
                    if is_continuation b2 then Wellformed [b0, b1, b2] # utf8_segments bs2
                    else Malformed [b0, b1] # utf8_segments bs1))
      else if b0 < 0xF5 then
        (case bs of
           [] \<Rightarrow> [Malformed [b0]]
         | b1 # bs1 \<Rightarrow>
             if \<not> second_of4 b0 b1 then Malformed [b0] # utf8_segments bs
             else
               (case bs1 of
                  [] \<Rightarrow> [Malformed [b0, b1]]
                | b2 # bs2 \<Rightarrow>
                    if \<not> is_continuation b2 then Malformed [b0, b1] # utf8_segments bs1
                    else
                      (case bs2 of
                         [] \<Rightarrow> [Malformed [b0, b1, b2]]
                       | b3 # bs3 \<Rightarrow>
                           if is_continuation b3
                           then Wellformed [b0, b1, b2, b3] # utf8_segments bs3
                           else Malformed [b0, b1, b2] # utf8_segments bs2)))
      else Malformed [b0] # utf8_segments bs)"

text \<open>The code point of one well-formed sequence: the payload bits of its bytes.\<close>

fun codepoint_of :: "byte list \<Rightarrow> codepoint" where
  "codepoint_of [b0] = unat b0"
| "codepoint_of [b0, b1] = unat (b0 AND 0x1F) * 64 + unat (b1 AND 0x3F)"
| "codepoint_of [b0, b1, b2] =
     unat (b0 AND 0x0F) * 4096 + unat (b1 AND 0x3F) * 64 + unat (b2 AND 0x3F)"
| "codepoint_of [b0, b1, b2, b3] =
     unat (b0 AND 0x07) * 262144 + unat (b1 AND 0x3F) * 4096 + unat (b2 AND 0x3F) * 64 +
     unat (b3 AND 0x3F)"
| "codepoint_of _ = 0"

text \<open>
  The three error handlers. \<open>None\<close> stands for raising UnicodeDecodeError, which only
  \<open>strict\<close> does.
\<close>

fun decode_segments :: "errors \<Rightarrow> segment list \<Rightarrow> pystr option" where
  "decode_segments h [] = Some []"
| "decode_segments h (Wellformed bs # ss) =
     map_option ((#) (codepoint_of bs)) (decode_segments h ss)"
| "decode_segments Strict (Malformed bs # ss) = None"
| "decode_segments Ignore (Malformed bs # ss) = decode_segments Ignore ss"
| "decode_segments Replace (Malformed bs # ss) =
     map_option ((#) 0xFFFD) (decode_segments Replace ss)"

definition decode :: "errors \<Rightarrow> byte list \<Rightarrow> pystr option" where
  "decode h bs = decode_segments h (utf8_segments bs)"

text \<open>
  The bytes of the input that belong to well-formed sequences, in order, and the code
  points of those sequences.
\<close>

fun wellformed_bytes :: "segment list \<Rightarrow> byte list" where
  "wellformed_bytes [] = []"
| "wellformed_bytes (Wellformed bs # ss) = bs @ wellformed_bytes ss"
| "wellformed_bytes (Malformed bs # ss) = wellformed_bytes ss"

fun wellformed_codepoints :: "segment list \<Rightarrow> pystr" where
  "wellformed_codepoints [] = []"
| "wellformed_codepoints (Wellformed bs # ss) = codepoint_of bs # wellformed_codepoints ss"
| "wellformed_codepoints (Malformed bs # ss) = wellformed_codepoints ss"

text \<open>
  Well-formed UTF-8 byte sequences as the Unicode standard tabulates them (table 3-7),
  stated independently of the scanner, and what it means for a scan to contain only
  such sequences in its well-formed segments.
\<close>

fun wf_seq :: "byte list \<Rightarrow> bool" where
  "wf_seq [b0] = (b0 < 0x80)"
| "wf_seq [b0, b1] = (0xC2 \<le> b0 \<and> b0 < 0xE0 \<and> is_continuation b1)"
| "wf_seq [b0, b1, b2] =
     (0xE0 \<le> b0 \<and> b0 < 0xF0 \<and> second_of3 b0 b1 \<and> is_continuation b2)"
| "wf_seq [b0, b1, b2, b3] =
     (0xF0 \<le> b0 \<and> b0 < 0xF5 \<and> second_of4 b0 b1 \<and> is_continuation b2 \<and>
      is_continuation b3)"
| "wf_seq _ = False"

fun segments_ok :: "segment list \<Rightarrow> bool" where
  "segments_ok [] = True"
| "segments_ok (Wellformed bs # ss) = (wf_seq bs \<and> segments_ok ss)"
| "segments_ok (Malformed bs # ss) = segments_ok ss"

fun wellformed_only :: "segment list \<Rightarrow> segment list" where
  "wellformed_only [] = []"
| "wellformed_only (Wellformed bs # ss) = Wellformed bs # wellformed_only ss"
| "wellformed_only (Malformed bs # ss) = wellformed_only ss"

fun segment_bytes :: "segment \<Rightarrow> byte list" where
  "segment_bytes (Wellformed bs) = bs"
| "segment_bytes (Malformed bs) = bs"

text \<open>
  \<open>str.encode('utf-8')\<close>, for comparison with the decoder: the UTF-8 form of a Unicode
  scalar value (a code point up to U+10FFFF that is not a surrogate). \<open>never_valid\<close> are
  the bytes that occur in no well-formed sequence.
\<close>

definition byte_of :: "nat \<Rightarrow> byte" where
  "byte_of n = of_nat n"

definition valid_scalar :: "codepoint \<Rightarrow> bool" where
  "valid_scalar c = (c < 0x110000 \<and> \<not> (0xD800 \<le> c \<and> c < 0xE000))"

definition utf8_encode :: "codepoint \<Rightarrow> byte list" where
  "utf8_encode c =
     (if c < 0x80 then [byte_of c]
      else if c < 0x800 then [byte_of (0xC0 + c div 64), byte_of (0x80 + c mod 64)]
      else if c < 0x10000 then
        [byte_of (0xE0 + c div 4096), byte_of (0x80 + c div 64 mod 64),
         byte_of (0x80 + c mod 64)]
      else
        [byte_of (0xF0 + c div 262144), byte_of (0x80 + c div 4096 mod 64),
         byte_of (0x80 + c div 64 mod 64), byte_of (0x80 + c mod 64)])"

definition encode :: "pystr \<Rightarrow> byte list" where
  "encode s = concat (map utf8_encode s)"

definition never_valid :: "byte \<Rightarrow> bool" where
  "never_valid b = (b = 0xC0 \<or> b = 0xC1 \<or> 0xF5 \<le> b)"

subsection \<open>Formatting integers\<close>

text \<open>An f-string renders an \<open>int\<close> in decimal.\<close>

function digits :: "nat \<Rightarrow> pystr" where
  "digits n = (if n < 10 then [0x30 + n] else digits (n div 10) @ [0x30 + n mod 10])"
  by pat_completeness auto
termination
  by (relation "measure id") auto

declare digits.simps [simp del]

definition str_int :: "int \<Rightarrow> pystr" where
  "str_int i = (if i < 0 then 0x2D # digits (nat (- i)) else digits (nat i))"

subsection \<open>Exceptions\<close>

text \<open>
  The exception classes that the \<open>except\<close> clauses of relay.py tell apart, with the
  inheritance of the libraries: in \<open>requests.exceptions\<close>, \<open>ConnectTimeout\<close> derives from
  both \<open>ConnectionError\<close> and \<open>Timeout\<close>, \<open>ReadTimeout\<close> from \<open>Timeout\<close>, and all of them
  from \<open>RequestException\<close>; in pyserial, \<open>SerialTimeoutException\<close> derives from
  \<open>SerialException\<close>; all of these derive from \<open>Exception\<close>. \<open>KeyboardInterrupt\<close> derives
  from \<open>BaseException\<close> only; it is the one exception outside \<open>Exception\<close> that the
  calls of this program can meet (nothing here raises \<open>SystemExit\<close>). \<open>OtherException\<close>
  stands for every other subclass of \<open>Exception\<close>, \<open>RequestException\<close> for the requests
  errors that are neither timeouts nor connection errors.
\<close>

datatype exn_class =
    Timeout | ConnectTimeout | ReadTimeout | ConnectionError | RequestException
  | SerialException | SerialTimeoutException | UnicodeDecodeError | UnicodeEncodeError
  | OtherException | KeyboardInterrupt

datatype exn = Exn (exn_class: exn_class) (message: pystr)

fun isinstance_Timeout :: "exn \<Rightarrow> bool" where
  "isinstance_Timeout (Exn Timeout m) = True"
| "isinstance_Timeout (Exn ConnectTimeout m) = True"
| "isinstance_Timeout (Exn ReadTimeout m) = True"
| "isinstance_Timeout (Exn c m) = False"

fun isinstance_ConnectionError :: "exn \<Rightarrow> bool" where
  "isinstance_ConnectionError (Exn ConnectionError m) = True"
| "isinstance_ConnectionError (Exn ConnectTimeout m) = True"
| "isinstance_ConnectionError (Exn c m) = False"

fun isinstance_SerialException :: "exn \<Rightarrow> bool" where
  "isinstance_SerialException (Exn SerialException m) = True"
| "isinstance_SerialException (Exn SerialTimeoutException m) = True"
| "isinstance_SerialException (Exn c m) = False"

fun isinstance_KeyboardInterrupt :: "exn \<Rightarrow> bool" where
  "isinstance_KeyboardInterrupt (Exn KeyboardInterrupt m) = True"
| "isinstance_KeyboardInterrupt (Exn c m) = False"

fun isinstance_Exception :: "exn \<Rightarrow> bool" where
  "isinstance_Exception (Exn KeyboardInterrupt m) = False"
| "isinstance_Exception (Exn c m) = True"

subsection \<open>Parsed JSON\<close>

text \<open>
  The object \<open>resp.json()\<close> returns. The program applies two operations to it:
  \<open>'message' in response_data\<close> and \<open>response_data['message']\<close>. Both raise TypeError on
  the values that do not support them (\<open>None\<close> below); the inner bare \<open>except\<close> discards
  the exception, so its message plays no role.
\<close>

datatype pyobj =
    PyNone | PyBool bool | PyInt int | PyFloat real | PyStr pystr
  | PyList "pyobj list" | PyDict "(pystr \<times> pyobj) list"

fun contains :: "pyobj \<Rightarrow> pystr \<Rightarrow> bool option" where
  "contains (PyDict kvs) k = Some (map_of kvs k \<noteq> None)"
| "contains (PyList xs) k = Some (List.member xs (PyStr k))"
| "contains (PyStr s) k = Some (sublist k s)"
| "contains v k = None"

fun getitem :: "pyobj \<Rightarrow> pystr \<Rightarrow> pyobj option" where
  "getitem (PyDict kvs) k = map_of kvs k"
| "getitem v k = None"

section \<open>The relay program\<close>

subsection \<open>Configuration (lines 64-71)\<close>



definition API_URL :: pystr where
  "API_URL = lit ''http://127.0.0.1:8000/api/rfid''"

subsection \<open>The outside world\<close>

text \<open>
  What \<open>requests.post\<close> returns: the fields and methods of the response that the program
  reads. \<open>json\<close> is what \<open>resp.json()\<close> does, an exception or the parsed value.
  \<open>Response.ok\<close> is a property of the requests library: it is false exactly when
  \<open>raise_for_status()\<close> raises, that is for the status codes 400 to 599.
\<close>

record response =
  status_code :: int
  resp_text :: pystr
  reason :: pystr
  json :: "exn + pyobj"

definition ok :: "response \<Rightarrow> bool" where
  "ok resp = (\<not> (400 \<le> status_code resp \<and> status_code resp < 600))"

text \<open>
  The library functions whose tables are not part of the program: the upper-case mapping
  beyond ASCII and \<open>str()\<close> of a parsed JSON value that is not itself a string.
\<close>

record pylib =
  toupper :: "codepoint \<Rightarrow> pystr"
  str_of :: "pyobj \<Rightarrow> pystr"

definition format_value :: "pylib \<Rightarrow> pyobj \<Rightarrow> pystr" where
  "format_value lib v = (case v of PyStr s \<Rightarrow> s | _ \<Rightarrow> str_of lib v)"

text \<open>
  What the world does during one pass through the loop body: the result of
  \<open>ser.readline()\<close>; what \<open>print\<close> does with a text, writing it (\<open>None\<close>) or raising
  (UnicodeEncodeError when standard output cannot encode the text, OSError when it
  cannot be written to); the result of \<open>requests.post\<close> for the identifier sent; and
  whether the operator interrupts \<open>time.sleep\<close>. \<open>console_raises\<close> is what \<open>print\<close> does
  outside the loop, in \<open>main\<close> and in the script.
\<close>

record world_step =
  readline :: "exn + byte list"
  print_raises :: "pystr \<Rightarrow> exn option"
  post :: "pystr \<Rightarrow> exn + response"
  sleep_interrupted :: bool


text \<open>
  What the program does to the outside, in order; \<open>Print\<close> is a line written, so a
  \<open>print\<close> that raises leaves no event. \<open>SerialClose\<close> is a call of pyserial's
  \<open>Serial.close()\<close> by the program, which is also what leaving a
  \<open>with serial.Serial(...)\<close> block makes; relay.py contains neither. \<open>SerialFinalize\<close> is
  the finalizer of the \<open>Serial\<close> object (\<open>IOBase.__del__\<close>, which closes the port): CPython
  runs it when the last reference to the object disappears.
\<close>

datatype event =
    SerialOpen pystr int int
  | SerialClose
  | SerialFinalize
  | ReadLine
  | Print pystr
  | HttpPost pystr pyobj "(pystr \<times> pystr) list" int
  | Sleep rat

datatype completion = Normal | Continue | Raise exn

datatype ending = Looping | Returned | Propagated exn


text \<open>
  A sequence of \<open>print\<close> statements: the lines are written in order up to the first one
  for which \<open>print\<close> raises; that exception ends the sequence.
\<close>

fun prints :: "(pystr \<Rightarrow> exn option) \<Rightarrow> event list \<Rightarrow> event list \<times> exn option" where
  "prints out [] = ([], None)"
| "prints out (Print t # evs) =
     (case out t of
        Some e \<Rightarrow> ([], Some e)
      | None \<Rightarrow> (Print t # fst (prints out evs), snd (prints out evs)))"
| "prints out (ev # evs) = (ev # fst (prints out evs), snd (prints out evs))"

subsection \<open>The loop body (lines 112-169)\<close>

definition post_request :: "pystr \<Rightarrow> event" where
  "post_request uid =
     HttpPost API_URL (PyDict [(lit ''uid'', PyStr uid)])
       [(lit ''Accept'', lit ''application/json''),
        (lit ''Content-Type'', lit ''application/json'')] 2"

text \<open>
  Lines 140-145: the inner \<open>try\<close> with its bare \<open>except\<close>, which discards whatever
  \<open>resp.json()\<close>, the membership test, the lookup or the \<open>print\<close> raises.
\<close>

definition server_response :: "pylib \<Rightarrow> world_step \<Rightarrow> response \<Rightarrow> event list" where
  "server_response lib w resp =
     (case json resp of
        Inl e \<Rightarrow> []
      | Inr response_data \<Rightarrow>
          (case contains response_data (lit ''message'') of
             None \<Rightarrow> []
           | Some False \<Rightarrow> []
           | Some True \<Rightarrow>
               (case getitem response_data (lit ''message'') of
                  None \<Rightarrow> []
                | Some v \<Rightarrow>
                    fst (prints (print_raises w)
                           [Print (lit ''[+] Server Response: '' @ format_value lib v)]))))"

text \<open>Lines 137-145: the success branch.\<close>

definition report_success ::
  "pylib \<Rightarrow> world_step \<Rightarrow> pystr \<Rightarrow> response \<Rightarrow> event list \<times> exn option" where
  "report_success lib w uid resp =
     (case print_raises w (lit ''[+] Success: UID '' @ uid @ lit '' processed by Laravel'') of
        Some e \<Rightarrow> ([], Some e)
      | None \<Rightarrow>
          (Print (lit ''[+] Success: UID '' @ uid @ lit '' processed by Laravel'') #
           server_response lib w resp, None))"

text \<open>Line 149.\<close>

definition error_msg :: "response \<Rightarrow> pystr" where
  "error_msg resp =
     (if resp_text resp \<noteq> [] then take 120 (resp_text resp) @ [0x2026] else reason resp)"

text \<open>Lines 150-151: the lines of the error branch.\<close>

definition report_error :: "pystr \<Rightarrow> response \<Rightarrow> event list" where
  "report_error uid resp =
     [Print (lit ''[!] API Error '' @ str_int (status_code resp) @ lit '': '' @ error_msg resp),
      Print (lit ''[!] Failed to process UID: '' @ uid)]"

text \<open>Lines 136-151: what is done with the response.\<close>

definition handle_response ::
  "pylib \<Rightarrow> world_step \<Rightarrow> pystr \<Rightarrow> response \<Rightarrow> event list \<times> exn option" where
  "handle_response lib w uid resp =
     (if ok resp then report_success lib w uid resp
      else prints (print_raises w) (report_error uid resp))"

text \<open>Lines 113-151: the body of the \<open>try\<close> statement.\<close>

definition try_block :: "pylib \<Rightarrow> world_step \<Rightarrow> event list \<times> completion" where
  "try_block lib w =
     (case readline w of
        Inl e \<Rightarrow> ([ReadLine], Raise e)
      | Inr bs \<Rightarrow>
          (case decode Ignore bs of
             None \<Rightarrow> ([ReadLine], Raise (Exn UnicodeDecodeError []))
           | Some decoded \<Rightarrow>
               (let raw = strip decoded in
                if raw = [] then ([ReadLine], Continue)
                else
                  (let uid = upper (toupper lib) raw in
                   case print_raises w (lit ''[+] RFID Tag Detected: '' @ uid) of
                     Some e \<Rightarrow> ([ReadLine], Raise e)
                   | None \<Rightarrow>
                       (case post w uid of
                          Inl e \<Rightarrow>
                            ([ReadLine, Print (lit ''[+] RFID Tag Detected: '' @ uid),
                              post_request uid], Raise e)
                        | Inr resp \<Rightarrow>
                            ([ReadLine, Print (lit ''[+] RFID Tag Detected: '' @ uid),
                              post_request uid] @ fst (handle_response lib w uid resp),
                             case snd (handle_response lib w uid resp) of
                               None \<Rightarrow> Normal
                             | Some e \<Rightarrow> Raise e))))))"

text \<open>
  Lines 153-166: the \<open>except\<close> clauses, tried in the order written, each with the lines it
  prints.
\<close>

definition timeout_lines :: "event list" where
  "timeout_lines =
     [Print (lit ''[!] API Timeout: Laravel server not responding''),
      Print (lit ''[!] Check if Laravel application is running on '' @ API_URL)]"

definition connection_lines :: "event list" where
  "connection_lines =
     [Print (lit ''[!] Connection Error: Cannot reach Laravel API''),
      Print (lit ''[!] Verify Laravel server is running and accessible'')]"

definition serial_lines :: "exn \<Rightarrow> event list" where
  "serial_lines e =
     [Print (lit ''[!] Serial Error: '' @ message e),
      Print (lit ''[!] Check Arduino connection and port settings'')]"

definition unexpected_lines :: "exn \<Rightarrow> event list" where
  "unexpected_lines e = [Print (lit ''[!] Unexpected Error: '' @ message e)]"

definition except_clauses :: "exn \<Rightarrow> event list option" where
  "except_clauses e =
     (if isinstance_Timeout e then Some timeout_lines
      else if isinstance_ConnectionError e then Some connection_lines
      else if isinstance_SerialException e then Some (serial_lines e)
      else if isinstance_Exception e then Some (unexpected_lines e)
      else None)"

text \<open>Line 169: \<open>time.sleep(0.1)\<close>, which only an operator interrupt cuts short.\<close>

definition pacing :: "world_step \<Rightarrow> event list \<times> exn option" where
  "pacing w =
     ([Sleep (1 / 10)], if sleep_interrupted w then Some (Exn KeyboardInterrupt []) else None)"

text \<open>
  The rest of a pass once a clause has caught the exception: the clause prints its
  lines, then the pacing delay follows. An exception raised by one of these \<open>print\<close>
  statements is raised outside the \<open>try\<close> block and leaves the loop.
\<close>

definition handler :: "world_step \<Rightarrow> event list \<Rightarrow> event list \<times> exn option" where
  "handler w lines =
     (case snd (prints (print_raises w) lines) of
        Some e \<Rightarrow> (fst (prints (print_raises w) lines), Some e)
      | None \<Rightarrow> (fst (prints (print_raises w) lines) @ fst (pacing w), snd (pacing w)))"

text \<open>
  One pass through the body of \<open>while True\<close>. \<open>continue\<close> goes back to the loop head at
  once; an exception that no clause catches leaves the loop.
\<close>

definition loop_body :: "pylib \<Rightarrow> world_step \<Rightarrow> event list \<times> exn option" where
  "loop_body lib w =
     (case try_block lib w of
        (evs, Continue) \<Rightarrow> (evs, None)
      | (evs, Normal) \<Rightarrow> (evs @ fst (pacing w), snd (pacing w))
      | (evs, Raise e) \<Rightarrow>
          (case except_clauses e of
             None \<Rightarrow> (evs, Some e)
           | Some lines \<Rightarrow> (evs @ fst (handler w lines), snd (handler w lines))))"

subsection \<open>The loop, \<open>main\<close> and the script\<close>

text \<open>
  The loop has no exit of its own. It is run against a finite prefix of what the world
  will do; when the prefix is used up the loop is at its head, about to read again
  (\<open>Looping\<close>).
\<close>

fun main_loop :: "pylib \<Rightarrow> world_step list \<Rightarrow> event list \<times> ending" where
  "main_loop lib [] = ([], Looping)"
| "main_loop lib (w # ws) =
     (case loop_body lib w of
        (evs, Some e) \<Rightarrow> (evs, Propagated e)
      | (evs, None) \<Rightarrow> (evs @ fst (main_loop lib ws), snd (main_loop lib ws)))"












subsection \<open>Observations on a trace\<close>

fun http_posts :: "event list \<Rightarrow> event list" where
  "http_posts [] = []"
| "http_posts (HttpPost url payload headers t # evs) =
     HttpPost url payload headers t # http_posts evs"
| "http_posts (ev # evs) = http_posts evs"

fun sleeps :: "event list \<Rightarrow> rat list" where
  "sleeps [] = []"
| "sleeps (Sleep d # evs) = d # sleeps evs"
| "sleeps (ev # evs) = sleeps evs"

text \<open>The events of a trace that open or release the serial port.\<close>

fun serial_calls :: "event list \<Rightarrow> event list" where
  "serial_calls [] = []"
| "serial_calls (SerialOpen port baud t # evs) = SerialOpen port baud t # serial_calls evs"
| "serial_calls (SerialClose # evs) = SerialClose # serial_calls evs"
| "serial_calls (SerialFinalize # evs) = SerialFinalize # serial_calls evs"
| "serial_calls (ev # evs) = serial_calls evs"

text \<open>Whether a list of events consists of lines that \<open>print\<close> writes under \<open>out\<close>.\<close>

fun written :: "(pystr \<Rightarrow> exn option) \<Rightarrow> event list \<Rightarrow> bool" where
  "written out [] = True"
| "written out (Print t # evs) = (out t = None \<and> written out evs)"
| "written out (ev # evs) = written out evs"

section \<open>Concrete inputs\<close>

text \<open>
  A library instance for evaluation (the identity beyond ASCII, a fixed rendering of
  non-string values), two standard outputs (one encoding UTF-8, which refuses
  surrogates, one encoding ASCII; the message of the UnicodeEncodeError is shortened to
  its reason, without the codec, the character and the position), and the inputs of the
  scenarios evaluated below.
\<close>

definition lib0 :: pylib where
  "lib0 = \<lparr>toupper = (\<lambda>c. [c]), str_of = (\<lambda>v. lit ''<object>'')\<rparr>"

definition utf8_stdout :: "pystr \<Rightarrow> exn option" where
  "utf8_stdout t =
     (if list_all valid_scalar t then None
      else Some (Exn UnicodeEncodeError (lit ''surrogates not allowed'')))"

definition ascii_stdout :: "pystr \<Rightarrow> exn option" where
  "ascii_stdout t =
     (if list_all (\<lambda>c. c < 0x80) t then None
      else Some (Exn UnicodeEncodeError (lit ''ordinal not in range(128)'')))"

text \<open>The bytes of \<^verbatim>\<open>" a1b2c3 \n"\<close>.\<close>

definition scan_bytes :: "byte list" where
  "scan_bytes = [0x20, 0x61, 0x31, 0x62, 0x32, 0x63, 0x33, 0x20, 0x0A]"

text \<open>The bytes of \<^verbatim>\<open>"AB\xffCD\n"\<close>: one byte that no UTF-8 sequence contains.\<close>

definition noise_bytes :: "byte list" where
  "noise_bytes = [0x41, 0x42, 0xFF, 0x43, 0x44, 0x0A]"

text \<open>
  The UTF-8 bytes of U+20AC (the euro sign, which has no upper-case form of its own)
  followed by \<^verbatim>\<open>"5\n"\<close>, and the same line with the byte FF after the sign.
\<close>

definition euro_bytes :: "byte list" where
  "euro_bytes = [0xE2, 0x82, 0xAC, 0x35, 0x0A]"

definition euro_noise_bytes :: "byte list" where
  "euro_noise_bytes = [0xE2, 0x82, 0xAC, 0xFF, 0x35, 0x0A]"

definition resp_200 :: response where
  \<open>resp_200 =
     \<lparr>status_code = 200, resp_text = lit ''{"message":"ok"}'', reason = lit ''OK'',
      json = Inr (PyDict [(lit ''message'', PyStr (lit ''ok''))])\<rparr>\<close>


definition resp_200_html :: response where
  "resp_200_html =
     \<lparr>status_code = 200, resp_text = lit ''<html>'', reason = lit ''OK'',
      json = Inl (Exn OtherException (lit ''Expecting value: line 1 column 1 (char 0)''))\<rparr>"

definition resp_304 :: response where
  "resp_304 =
     \<lparr>status_code = 304, resp_text = [], reason = lit ''Not Modified'',
      json = Inl (Exn OtherException (lit ''Expecting value: line 1 column 1 (char 0)''))\<rparr>"

definition resp_422 :: response where
  "resp_422 =
     \<lparr>status_code = 422, resp_text = lit ''duplicate tag'', reason = lit ''Unprocessable Entity'',
      json = Inl (Exn OtherException (lit ''Expecting value: line 1 column 1 (char 0)''))\<rparr>"

definition resp_500 :: response where
  "resp_500 =
     \<lparr>status_code = 500, resp_text = [], reason = lit ''Internal Server Error'',
      json = Inl (Exn OtherException (lit ''Expecting value: line 1 column 1 (char 0)''))\<rparr>"

definition step_scan :: world_step where
  "step_scan =
     \<lparr>readline = Inr scan_bytes, print_raises = utf8_stdout, post = (\<lambda>uid. Inr resp_200),
      sleep_interrupted = False\<rparr>"

definition step_idle :: world_step where
  "step_idle =
     \<lparr>readline = Inr [], print_raises = utf8_stdout, post = (\<lambda>uid. Inr resp_200),
      sleep_interrupted = False\<rparr>"

definition step_noise :: world_step where
  "step_noise =
     \<lparr>readline = Inr noise_bytes, print_raises = utf8_stdout, post = (\<lambda>uid. Inr resp_200),
      sleep_interrupted = False\<rparr>"

definition step_euro :: world_step where
  "step_euro =
     \<lparr>readline = Inr euro_bytes, print_raises = ascii_stdout, post = (\<lambda>uid. Inr resp_200),
      sleep_interrupted = False\<rparr>"

definition step_euro_noise :: world_step where
  "step_euro_noise =
     \<lparr>readline = Inr euro_noise_bytes, print_raises = ascii_stdout,
      post = (\<lambda>uid. Inr resp_200), sleep_interrupted = False\<rparr>"

definition step_html :: world_step where
  "step_html =
     \<lparr>readline = Inr scan_bytes, print_raises = utf8_stdout,
      post = (\<lambda>uid. Inr resp_200_html), sleep_interrupted = False\<rparr>"


definition step_not_modified :: world_step where
  "step_not_modified =
     \<lparr>readline = Inr scan_bytes, print_raises = utf8_stdout, post = (\<lambda>uid. Inr resp_304),
      sleep_interrupted = False\<rparr>"

definition step_rejected :: world_step where
  "step_rejected =
     \<lparr>readline = Inr scan_bytes, print_raises = utf8_stdout, post = (\<lambda>uid. Inr resp_422),
      sleep_interrupted = False\<rparr>"

definition step_rejected_ascii :: world_step where
  "step_rejected_ascii =
     \<lparr>readline = Inr scan_bytes, print_raises = ascii_stdout, post = (\<lambda>uid. Inr resp_422),
      sleep_interrupted = False\<rparr>"





definition step_unplugged :: world_step where
  "step_unplugged =
     \<lparr>readline = Inl (Exn SerialException (lit ''device disconnected'')),
      print_raises = utf8_stdout, post = (\<lambda>uid. Inr resp_200), sleep_interrupted = False\<rparr>"








section \<open>The decoder\<close>

lemma byte_below:
  "0xC2 \<le> (b::byte) \<Longrightarrow> \<not> b < 0x80"
  "0xE0 \<le> (b::byte) \<Longrightarrow> \<not> b < 0x80 \<and> \<not> b < 0xC2"
  "0xF0 \<le> (b::byte) \<Longrightarrow> \<not> b < 0x80 \<and> \<not> b < 0xC2 \<and> \<not> b < 0xE0"
  by (simp_all add: word_less_nat_alt word_le_nat_alt)

lemma utf8_segments_ok: "segments_ok (utf8_segments bs)"
  by (induction bs rule: utf8_segments.induct) (auto split: list.splits simp: not_less)

lemma wf_seq_cases:
  assumes "wf_seq s"
  obtains b0 where "s = [b0]" "b0 < 0x80"
  | b0 b1 where "s = [b0, b1]" "0xC2 \<le> b0" "b0 < 0xE0" "is_continuation b1"
  | b0 b1 b2 where "s = [b0, b1, b2]" "0xE0 \<le> b0" "b0 < 0xF0" "second_of3 b0 b1"
      "is_continuation b2"
  | b0 b1 b2 b3 where "s = [b0, b1, b2, b3]" "0xF0 \<le> b0" "b0 < 0xF5" "second_of4 b0 b1"
      "is_continuation b2" "is_continuation b3"
  using assms by (cases s rule: wf_seq.cases) auto

lemma utf8_segments_wf_seq:
  assumes "wf_seq s"
  shows "utf8_segments (s @ xs) = Wellformed s # utf8_segments xs"
  using assms
proof (cases rule: wf_seq_cases)
  case (1 b0)
  then show ?thesis by simp
next
  case (2 b0 b1)
  then show ?thesis using byte_below(1) [of b0] by simp
next
  case (3 b0 b1 b2)
  then show ?thesis using byte_below(2) [of b0] by simp
next
  case (4 b0 b1 b2 b3)
  then show ?thesis using byte_below(3) [of b0] by (simp add: not_less)
qed

lemma utf8_segments_wellformed_bytes:
  "segments_ok ss \<Longrightarrow> utf8_segments (wellformed_bytes ss) = wellformed_only ss"
  by (induction ss rule: wellformed_bytes.induct) (simp_all add: utf8_segments_wf_seq)

lemma decode_Strict_wellformed_only:
  "decode_segments Strict (wellformed_only ss) = decode_segments Ignore ss"
  by (induction ss rule: wellformed_only.induct) simp_all

lemma decode_segments_Ignore: "decode_segments Ignore ss = Some (wellformed_codepoints ss)"
  by (induction ss rule: wellformed_codepoints.induct) simp_all

lemma decode_Ignore_Some: "decode Ignore bs = Some (wellformed_codepoints (utf8_segments bs))"
  by (simp add: decode_def decode_segments_Ignore)

lemma utf8_segments_cover: "concat (map segment_bytes (utf8_segments bs)) = bs"
  by (induction bs rule: utf8_segments.induct) (auto split: list.splits)

lemma wellformed_bytes_subseq: "subseq (wellformed_bytes ss) (concat (map segment_bytes ss))"
  by (induction ss rule: wellformed_bytes.induct)
     (auto intro: subseq_rev_drop_many list_emb_append_mono)

lemma decode_Strict_kept:
  "decode Strict (wellformed_bytes (utf8_segments bs)) = decode Ignore bs"
  by (simp add: decode_def utf8_segments_wellformed_bytes utf8_segments_ok
      decode_Strict_wellformed_only)

lemma kept_subseq: "subseq (wellformed_bytes (utf8_segments bs)) bs"
  using wellformed_bytes_subseq [of "utf8_segments bs"] by (simp add: utf8_segments_cover)

subsection \<open>Encoding and decoding\<close>

lemma div_bounds:
  fixes c :: nat
  shows "c < 0x800 \<Longrightarrow> c div 64 < 32" "0x80 \<le> c \<Longrightarrow> 2 \<le> c div 64"
    "c < 0x10000 \<Longrightarrow> c div 4096 < 16" "c < 0x110000 \<Longrightarrow> c div 262144 < 5"
    "c < 0x1000 \<Longrightarrow> c div 64 < 64" "0x800 \<le> c \<Longrightarrow> 0x20 \<le> c div 64"
    "c < 0x40000 \<Longrightarrow> c div 4096 < 64" "0x10000 \<le> c \<Longrightarrow> 0x10 \<le> c div 4096"
  by (simp_all add: less_mult_imp_div_less less_eq_div_iff_mult_less_eq)

lemma split_4096: "(c::nat) div 64 mod 64 = c mod 4096 div 64"
  by (simp add: mod_mult2_eq [of c 64 64, simplified])

lemma split_262144: "(c::nat) div 4096 mod 64 = c mod 262144 div 4096"
  by (simp add: mod_mult2_eq [of c 4096 64, simplified])

lemma mod_chain: "(c::nat) mod 4096 mod 64 = c mod 64" "(c::nat) mod 262144 mod 4096 = c mod 4096"
  by (simp_all add: mod_mod_cancel)

lemma rebuild3: "c div 4096 * 4096 + c div 64 mod 64 * 64 + c mod 64 = (c::nat)"
proof -
  have "c mod 4096 div 64 * 64 + c mod 4096 mod 64 = c mod 4096" by (rule div_mult_mod_eq)
  then have "c div 64 mod 64 * 64 + c mod 64 = c mod 4096"
    by (simp only: split_4096 mod_chain)
  moreover have "c div 4096 * 4096 + c mod 4096 = c" by (rule div_mult_mod_eq)
  ultimately show ?thesis by linarith
qed

lemma rebuild4:
  "c div 262144 * 262144 + c div 4096 mod 64 * 4096 + c div 64 mod 64 * 64 + c mod 64 = (c::nat)"
proof -
  have "c mod 262144 div 4096 * 4096 + c mod 262144 mod 4096 = c mod 262144"
    by (rule div_mult_mod_eq)
  then have "c div 4096 mod 64 * 4096 + c mod 4096 = c mod 262144"
    by (simp only: split_262144 mod_chain)
  moreover have "c div 262144 * 262144 + c mod 262144 = c" by (rule div_mult_mod_eq)
  moreover have "c div 4096 * 4096 + c mod 4096 = c" by (rule div_mult_mod_eq)
  moreover note rebuild3 [of c]
  ultimately show ?thesis by linarith
qed

lemma strip_lead:
  fixes d :: nat
  shows "d < 32 \<Longrightarrow> (0xC0 + d) mod 32 = d" "d < 16 \<Longrightarrow> (0xE0 + d) mod 16 = d"
    "d < 8 \<Longrightarrow> (0xF0 + d) mod 8 = d" "(0x80 + d mod 64) mod 64 = d mod 64"
proof -
  have "(32 * 6 + d) mod 32 = d mod 32" "(16 * 14 + d) mod 16 = d mod 16"
    "(8 * 30 + d) mod 8 = d mod 8" "(64 * 2 + d mod 64) mod 64 = d mod 64 mod 64"
    by (rule mod_mult_self4)+
  then show "d < 32 \<Longrightarrow> (0xC0 + d) mod 32 = d" "d < 16 \<Longrightarrow> (0xE0 + d) mod 16 = d"
    "d < 8 \<Longrightarrow> (0xF0 + d) mod 8 = d" "(0x80 + d mod 64) mod 64 = d mod 64"
    by simp_all
qed

lemma second3_lo: "0x800 \<le> c \<Longrightarrow> c div 4096 = 0 \<Longrightarrow> 0x20 \<le> c div 64 mod (64::nat)"
proof -
  assume a: "0x800 \<le> c" "c div 4096 = 0"
  then have "c < 4096" by simp
  then have "c div 64 < 64" by (simp add: less_mult_imp_div_less)
  with a show ?thesis by (simp add: less_eq_div_iff_mult_less_eq)
qed

lemma second3_hi: "c < 0xD800 \<Longrightarrow> c div 4096 = 0xD \<Longrightarrow> c div 64 mod 64 < (0x20::nat)"
proof -
  assume a: "c < 0xD800" "c div 4096 = 0xD"
  have "c div 4096 * 4096 + c mod 4096 = c" by (rule div_mult_mod_eq)
  with a have "c mod 4096 < 0x800" by simp
  then have "c mod 4096 div 64 < 32" by (simp add: less_mult_imp_div_less)
  then show ?thesis by (simp add: split_4096)
qed

lemma second4_lo: "0x10000 \<le> c \<Longrightarrow> c div 262144 = 0 \<Longrightarrow> 0x10 \<le> c div 4096 mod (64::nat)"
proof -
  assume a: "0x10000 \<le> c" "c div 262144 = 0"
  then have "c < 262144" by simp
  then have "c div 4096 < 64" by (simp add: less_mult_imp_div_less)
  with a show ?thesis by (simp add: less_eq_div_iff_mult_less_eq)
qed

lemma second4_hi: "c < 0x110000 \<Longrightarrow> c div 262144 = 4 \<Longrightarrow> c div 4096 mod 64 < (0x10::nat)"
proof -
  assume a: "c < 0x110000" "c div 262144 = 4"
  have "c div 262144 * 262144 + c mod 262144 = c" by (rule div_mult_mod_eq)
  with a have "c mod 262144 < 0x10000" by simp
  then have "c mod 262144 div 4096 < 16" by (simp add: less_mult_imp_div_less)
  then show ?thesis by (simp add: split_262144)
qed

lemma unat_byte_of: "unat (byte_of n) = n mod 256"
  by (simp add: byte_of_def unat_of_nat)

lemma unat_and_mask: "unat ((w::byte) AND mask k) = unat w mod 2 ^ k"
proof -
  have "w AND mask k = take_bit k w" by (simp add: take_bit_eq_mask)
  then have "unat (w AND mask k) = take_bit k (unat w)" by (simp only: unsigned_take_bit_eq)
  then show ?thesis by (simp only: take_bit_eq_mod)
qed

lemma payload_bits:
  "unat ((w::byte) AND 0x3F) = unat w mod 64"
  "unat ((w::byte) AND 0x1F) = unat w mod 32"
  "unat ((w::byte) AND 0x0F) = unat w mod 16"
  "unat ((w::byte) AND 0x07) = unat w mod 8"
  using unat_and_mask [of w 6] unat_and_mask [of w 5] unat_and_mask [of w 4]
    unat_and_mask [of w 3]
  by (simp_all add: mask_eq_exp_minus_1)

lemma byte_less:
  "(a::byte) < b \<longleftrightarrow> unat a < unat b" "(a::byte) \<le> b \<longleftrightarrow> unat a \<le> unat b"
  "(a::byte) = b \<longleftrightarrow> unat a = unat b"
  by (simp_all add: word_less_nat_alt word_le_nat_alt word_unat_eq_iff)

lemma unat_lead:
  "d < 64 \<Longrightarrow> unat (byte_of (0x80 + d)) = 0x80 + d"
  "d < 32 \<Longrightarrow> unat (byte_of (0xC0 + d)) = 0xC0 + d"
  "d < 16 \<Longrightarrow> unat (byte_of (0xE0 + d)) = 0xE0 + d"
  "d < 8 \<Longrightarrow> unat (byte_of (0xF0 + d)) = 0xF0 + d"
  "d < 128 \<Longrightarrow> unat (byte_of d) = d"
  by (simp_all add: unat_byte_of)

lemma trail_continuation: "is_continuation (byte_of (0x80 + d mod 64))"
  by (simp add: is_continuation_def byte_less unat_lead)

lemma second_of3_encode:
  assumes "d0 < 16" and "d1 < 64" and "d0 = 0 \<Longrightarrow> 0x20 \<le> d1" and "d0 = 0xD \<Longrightarrow> d1 < 0x20"
  shows "second_of3 (byte_of (0xE0 + d0)) (byte_of (0x80 + d1))"
proof -
  from assms(1,2)
  have u: "unat (byte_of (0xE0 + d0)) = 0xE0 + d0" "unat (byte_of (0x80 + d1)) = 0x80 + d1"
    by (simp_all add: unat_lead)
  show ?thesis
    unfolding second_of3_def is_continuation_def byte_less u
    using assms by (cases "d0 = 0"; cases "d0 = 0xD"; simp)
qed

lemma second_of4_encode:
  assumes "d0 < 8" and "d1 < 64" and "d0 = 0 \<Longrightarrow> 0x10 \<le> d1" and "d0 = 4 \<Longrightarrow> d1 < 0x10"
  shows "second_of4 (byte_of (0xF0 + d0)) (byte_of (0x80 + d1))"
proof -
  from assms(1,2)
  have u: "unat (byte_of (0xF0 + d0)) = 0xF0 + d0" "unat (byte_of (0x80 + d1)) = 0x80 + d1"
    by (simp_all add: unat_lead)
  show ?thesis
    unfolding second_of4_def is_continuation_def byte_less u
    using assms by (cases "d0 = 0"; cases "d0 = 4"; simp)
qed

lemma wf_seq_utf8_encode:
  assumes "valid_scalar c"
  shows "wf_seq (utf8_encode c)"
proof -
  from assms have top: "c < 0x110000" and sur: "c < 0xD800 \<or> 0xE000 \<le> c"
    by (auto simp: valid_scalar_def)
  show ?thesis
  proof (cases "c < 0x80")
    case True
    then show ?thesis by (simp add: utf8_encode_def byte_less unat_lead)
  next
    case c1: False
    show ?thesis
    proof (cases "c < 0x800")
      case True
      with c1 have d: "c div 64 < 32" "2 \<le> c div 64" by (simp_all add: div_bounds)
      from c1 True
      have "utf8_encode c = [byte_of (0xC0 + c div 64), byte_of (0x80 + c mod 64)]"
        by (simp add: utf8_encode_def)
      with d show ?thesis by (simp add: trail_continuation byte_less unat_lead)
    next
      case c2: False
      show ?thesis
      proof (cases "c < 0x10000")
        case True
        with c2 have d: "c div 4096 < 16" by (simp add: div_bounds)
        from c1 c2 True have e: "utf8_encode c =
            [byte_of (0xE0 + c div 4096), byte_of (0x80 + c div 64 mod 64),
             byte_of (0x80 + c mod 64)]"
          by (simp add: utf8_encode_def)
        have lo: "0x20 \<le> c div 64 mod 64" if "c div 4096 = 0"
          using that c2 by (simp add: second3_lo)
        have "c < 0xD800" if "c div 4096 = 0xD"
        proof (rule ccontr)
          assume "\<not> c < 0xD800"
          with sur have "0xE000 \<le> c" by simp
          then have "0xE \<le> c div 4096" by (simp add: less_eq_div_iff_mult_less_eq)
          with that show False by simp
        qed
        then have hi: "c div 64 mod 64 < 0x20" if "c div 4096 = 0xD"
          using that by (simp add: second3_hi)
        have s:
          "second_of3 (byte_of (0xE0 + c div 4096)) (byte_of (0x80 + c div 64 mod 64))"
          using d lo hi by (intro second_of3_encode) simp_all
        from d s show ?thesis by (simp add: e trail_continuation byte_less unat_lead)
      next
        case c3: False
        with top have d: "c div 262144 < 5" by (simp add: div_bounds)
        then have d8: "c div 262144 < 8" by simp
        from c1 c2 c3 have e: "utf8_encode c =
            [byte_of (0xF0 + c div 262144), byte_of (0x80 + c div 4096 mod 64),
             byte_of (0x80 + c div 64 mod 64), byte_of (0x80 + c mod 64)]"
          by (simp add: utf8_encode_def)
        have lo: "0x10 \<le> c div 4096 mod 64" if "c div 262144 = 0"
          using that c3 by (simp add: second4_lo)
        have hi: "c div 4096 mod 64 < 0x10" if "c div 262144 = 4"
          using that top by (simp add: second4_hi)
        have s:
          "second_of4 (byte_of (0xF0 + c div 262144)) (byte_of (0x80 + c div 4096 mod 64))"
          using d8 lo hi by (intro second_of4_encode) simp_all
        from d d8 s show ?thesis by (simp add: e trail_continuation byte_less unat_lead)
      qed
    qed
  qed
qed

lemma codepoint_of_utf8_encode:
  assumes "c < 0x110000"
  shows "codepoint_of (utf8_encode c) = c"
proof (cases "c < 0x80")
  case True
  then show ?thesis by (simp add: utf8_encode_def unat_lead)
next
  case c1: False
  show ?thesis
  proof (cases "c < 0x800")
    case True
    then have d: "c div 64 < 32" by (simp add: div_bounds)
    from c1 True
    have e: "utf8_encode c = [byte_of (0xC0 + c div 64), byte_of (0x80 + c mod 64)]"
      by (simp add: utf8_encode_def)
    from d show ?thesis by (simp add: e payload_bits unat_lead strip_lead)
  next
    case c2: False
    show ?thesis
    proof (cases "c < 0x10000")
      case True
      then have d: "c div 4096 < 16" by (simp add: div_bounds)
      from c1 c2 True have e: "utf8_encode c =
          [byte_of (0xE0 + c div 4096), byte_of (0x80 + c div 64 mod 64),
           byte_of (0x80 + c mod 64)]"
        by (simp add: utf8_encode_def)
      from d rebuild3 [of c] show ?thesis
        by (simp add: e payload_bits unat_lead strip_lead)
    next
      case c3: False
      from assms have "c div 262144 < 5" by (simp add: div_bounds)
      then have d: "c div 262144 < 8" by simp
      from c1 c2 c3 have e: "utf8_encode c =
          [byte_of (0xF0 + c div 262144), byte_of (0x80 + c div 4096 mod 64),
           byte_of (0x80 + c div 64 mod 64), byte_of (0x80 + c mod 64)]"
        by (simp add: utf8_encode_def)
      from d rebuild4 [of c] show ?thesis
        by (simp add: e payload_bits unat_lead strip_lead)
    qed
  qed
qed

lemma utf8_segments_encode:
  "list_all valid_scalar s \<Longrightarrow>
   utf8_segments (encode s @ bs) = map (\<lambda>c. Wellformed (utf8_encode c)) s @ utf8_segments bs"
proof (induction s)
  case Nil
  then show ?case by (simp add: encode_def)
next
  case (Cons c s)
  then have "wf_seq (utf8_encode c)" by (simp add: wf_seq_utf8_encode)
  from utf8_segments_wf_seq [OF this] Cons show ?case by (simp add: encode_def)
qed

lemma wellformed_codepoints_encode:
  "list_all valid_scalar s \<Longrightarrow>
   wellformed_codepoints (map (\<lambda>c. Wellformed (utf8_encode c)) s @ ss) =
     s @ wellformed_codepoints ss"
  by (induction s) (simp_all add: codepoint_of_utf8_encode valid_scalar_def)

lemma utf8_segments_never_valid:
  assumes "never_valid b"
  shows "utf8_segments (b # bs) = Malformed [b] # utf8_segments bs"
proof -
  from assms consider "b = 0xC0" | "b = 0xC1" | "0xF5 \<le> b"
    by (auto simp: never_valid_def)
  then show ?thesis
  proof cases
    case 1
    then show ?thesis by simp
  next
    case 2
    then show ?thesis by simp
  next
    case 3
    then have "\<not> b < 0x80" "\<not> b < 0xC2" "\<not> b < 0xE0" "\<not> b < 0xF0" "\<not> b < 0xF5"
      by (simp_all add: byte_less)
    then show ?thesis by simp
  qed
qed

lemma decode_Ignore_encode_noise:
  assumes "list_all valid_scalar s1" and "list_all valid_scalar s2" and "never_valid b"
  shows "decode Ignore (encode s1 @ b # encode s2) = Some (s1 @ s2)"
proof -
  have "utf8_segments (encode s2) = map (\<lambda>c. Wellformed (utf8_encode c)) s2"
    using utf8_segments_encode [OF assms(2), of "[]"] by simp
  then have "utf8_segments (encode s1 @ b # encode s2) =
      map (\<lambda>c. Wellformed (utf8_encode c)) s1 @
      Malformed [b] # map (\<lambda>c. Wellformed (utf8_encode c)) s2"
    by (simp only: utf8_segments_encode [OF assms(1)]
        utf8_segments_never_valid [OF assms(3)])
  moreover have "wellformed_codepoints (map (\<lambda>c. Wellformed (utf8_encode c)) s2) = s2"
    using wellformed_codepoints_encode [OF assms(2), of "[]"] by simp
  ultimately show ?thesis
    by (simp add: decode_Ignore_Some wellformed_codepoints_encode [OF assms(1)])
qed

lemma decode_encode:
  assumes "list_all valid_scalar s"
  shows "decode h (encode s) = Some s"
proof -
  have seg: "utf8_segments (encode s) = map (\<lambda>c. Wellformed (utf8_encode c)) s"
    using utf8_segments_encode [OF assms, of "[]"] by simp
  have "decode_segments h (map (\<lambda>c. Wellformed (utf8_encode c)) s) = Some s"
    using assms by (induction s) (simp_all add: codepoint_of_utf8_encode valid_scalar_def)
  with seg show ?thesis by (simp add: decode_def)
qed

section \<open>Sequences of print statements\<close>

lemma prints_written: "written out evs \<Longrightarrow> prints out evs = (evs, None)"
  by (induction out evs rule: prints.induct) simp_all

lemma prints_None_written: "snd (prints out evs) = None \<Longrightarrow> written out evs"
  by (induction out evs rule: prints.induct) (auto split: option.splits)

lemma prints_raised:
  "snd (prints out evs) = Some e \<Longrightarrow> \<exists>t. Print t \<in> set evs \<and> out t = Some e"
  by (induction out evs rule: prints.induct) (auto split: option.splits)

lemma http_posts_append: "http_posts (xs @ ys) = http_posts xs @ http_posts ys"
  by (induction xs rule: http_posts.induct) simp_all

lemma sleeps_append: "sleeps (xs @ ys) = sleeps xs @ sleeps ys"
  by (induction xs rule: sleeps.induct) simp_all

lemma serial_calls_append: "serial_calls (xs @ ys) = serial_calls xs @ serial_calls ys"
  by (induction xs rule: serial_calls.induct) simp_all

lemma serial_calls_subset: "ev \<in> set (serial_calls evs) \<Longrightarrow> ev \<in> set evs"
  by (induction evs rule: serial_calls.induct) auto


lemma prints_http_posts: "http_posts evs = [] \<Longrightarrow> http_posts (fst (prints out evs)) = []"
  by (induction out evs rule: prints.induct) (auto split: option.splits)

lemma prints_sleeps: "sleeps evs = [] \<Longrightarrow> sleeps (fst (prints out evs)) = []"
  by (induction out evs rule: prints.induct) (auto split: option.splits)

lemma prints_serial_calls:
  "serial_calls evs = [] \<Longrightarrow> serial_calls (fst (prints out evs)) = []"
  by (induction out evs rule: prints.induct) (auto split: option.splits)

lemmas prints_quiet = prints_http_posts prints_sleeps prints_serial_calls

section \<open>Traces of the loop body\<close>

lemma server_response_shape:
  "server_response lib w resp = [] \<or>
   (\<exists>v. server_response lib w resp =
      [Print (lit ''[+] Server Response: '' @ format_value lib v)])"
  by (auto simp: server_response_def split: sum.split option.split bool.split)

lemma server_response_quiet:
  "http_posts (server_response lib w resp) = []"
  "sleeps (server_response lib w resp) = []"
  "serial_calls (server_response lib w resp) = []"
  using server_response_shape [of lib w resp] by auto



lemma report_lines_quiet:
  "http_posts (report_error uid resp) = []"
  "sleeps (report_error uid resp) = []"
  "serial_calls (report_error uid resp) = []"
  by (simp_all add: report_error_def)

lemma report_success_quiet:
  "http_posts (fst (report_success lib w uid resp)) = []"
  "sleeps (fst (report_success lib w uid resp)) = []"
  "serial_calls (fst (report_success lib w uid resp)) = []"
  by (simp_all add: report_success_def server_response_quiet split: option.split)

lemma handle_response_quiet:
  "http_posts (fst (handle_response lib w uid resp)) = []"
  "sleeps (fst (handle_response lib w uid resp)) = []"
  "serial_calls (fst (handle_response lib w uid resp)) = []"
  by (simp_all add: handle_response_def report_success_quiet prints_quiet report_lines_quiet)

lemma clause_lines_quiet:
  "except_clauses e = Some lines \<Longrightarrow>
   http_posts lines = [] \<and> sleeps lines = [] \<and> serial_calls lines = []"
  by (auto simp: except_clauses_def timeout_lines_def connection_lines_def serial_lines_def
      unexpected_lines_def split: if_splits)

lemma except_clauses_Exception:
  "isinstance_Exception e \<Longrightarrow>
   except_clauses e =
     Some (if isinstance_Timeout e then timeout_lines
           else if isinstance_ConnectionError e then connection_lines
           else if isinstance_SerialException e then serial_lines e
           else unexpected_lines e)"
  by (simp add: except_clauses_def)



lemma KeyboardInterrupt_not_Exception:
  "isinstance_KeyboardInterrupt e \<Longrightarrow> \<not> isinstance_Exception e"
  by (cases e rule: isinstance_KeyboardInterrupt.cases) simp_all

lemma handler_written:
  "written (print_raises w) lines \<Longrightarrow>
   handler w lines = (lines @ [Sleep (1 / 10)], snd (pacing w))"
  by (simp add: handler_def prints_written pacing_def)


lemma handler_None:
  "snd (handler w lines) = None \<Longrightarrow>
   handler w lines = (lines @ [Sleep (1 / 10)], None) \<and> written (print_raises w) lines"
proof -
  assume a: "snd (handler w lines) = None"
  then have "snd (prints (print_raises w) lines) = None"
    by (auto simp: handler_def split: option.splits)
  then have "written (print_raises w) lines" by (rule prints_None_written)
  with a handler_written [of w lines] show ?thesis by simp
qed


lemma handler_quiet:
  "http_posts lines = [] \<Longrightarrow> http_posts (fst (handler w lines)) = []"
  "serial_calls lines = [] \<Longrightarrow> serial_calls (fst (handler w lines)) = []"
  by (simp_all add: handler_def pacing_def prints_quiet http_posts_append serial_calls_append
      split: option.split)

lemma try_block_readline_raises:
  "readline w = Inl e \<Longrightarrow> try_block lib w = ([ReadLine], Raise e)"
  by (simp add: try_block_def)

lemma try_block_empty:
  "readline w = Inr bs \<Longrightarrow> decode Ignore bs = Some line \<Longrightarrow> strip line = [] \<Longrightarrow>
   try_block lib w = ([ReadLine], Continue)"
  by (simp add: try_block_def)

lemma try_block_print_raises:
  "readline w = Inr bs \<Longrightarrow> decode Ignore bs = Some line \<Longrightarrow> strip line \<noteq> [] \<Longrightarrow>
   print_raises w (lit ''[+] RFID Tag Detected: '' @ upper (toupper lib) (strip line)) = Some e \<Longrightarrow>
   try_block lib w = ([ReadLine], Raise e)"
  by (simp add: try_block_def Let_def)

lemma try_block_post_raises:
  "readline w = Inr bs \<Longrightarrow> decode Ignore bs = Some line \<Longrightarrow> strip line \<noteq> [] \<Longrightarrow>
   print_raises w (lit ''[+] RFID Tag Detected: '' @ upper (toupper lib) (strip line)) = None \<Longrightarrow>
   post w (upper (toupper lib) (strip line)) = Inl e \<Longrightarrow>
   try_block lib w =
     ([ReadLine, Print (lit ''[+] RFID Tag Detected: '' @ upper (toupper lib) (strip line)),
       post_request (upper (toupper lib) (strip line))], Raise e)"
  by (simp add: try_block_def Let_def)

lemma try_block_response:
  "readline w = Inr bs \<Longrightarrow> decode Ignore bs = Some line \<Longrightarrow> strip line \<noteq> [] \<Longrightarrow>
   print_raises w (lit ''[+] RFID Tag Detected: '' @ upper (toupper lib) (strip line)) = None \<Longrightarrow>
   post w (upper (toupper lib) (strip line)) = Inr resp \<Longrightarrow>
   try_block lib w =
     ([ReadLine, Print (lit ''[+] RFID Tag Detected: '' @ upper (toupper lib) (strip line)),
       post_request (upper (toupper lib) (strip line))] @
      fst (handle_response lib w (upper (toupper lib) (strip line)) resp),
      case snd (handle_response lib w (upper (toupper lib) (strip line)) resp) of
        None \<Rightarrow> Normal
      | Some e \<Rightarrow> Raise e)"
  by (simp add: try_block_def Let_def)

lemma try_block_Continue:
  "snd (try_block lib w) = Continue \<longleftrightarrow>
   (\<exists>bs line. readline w = Inr bs \<and> decode Ignore bs = Some line \<and> strip line = [])"
  by (auto simp: try_block_def Let_def split: sum.splits option.splits)

lemma try_block_quiet:
  "sleeps (fst (try_block lib w)) = []" "serial_calls (fst (try_block lib w)) = []"
  by (auto simp: try_block_def Let_def post_request_def handle_response_quiet
      sleeps_append serial_calls_append split: sum.splits option.splits)

lemma loop_body_Continue:
  "snd (try_block lib w) = Continue \<Longrightarrow> loop_body lib w = (fst (try_block lib w), None)"
  by (cases "try_block lib w") (simp add: loop_body_def)

lemma loop_body_Normal:
  "snd (try_block lib w) = Normal \<Longrightarrow>
   loop_body lib w = (fst (try_block lib w) @ [Sleep (1 / 10)], snd (pacing w))"
  by (cases "try_block lib w") (simp add: loop_body_def pacing_def)

lemma loop_body_caught:
  "snd (try_block lib w) = Raise e \<Longrightarrow> except_clauses e = Some lines \<Longrightarrow>
   loop_body lib w = (fst (try_block lib w) @ fst (handler w lines), snd (handler w lines))"
  by (cases "try_block lib w") (simp add: loop_body_def)

lemma loop_body_uncaught:
  "snd (try_block lib w) = Raise e \<Longrightarrow> except_clauses e = None \<Longrightarrow>
   loop_body lib w = (fst (try_block lib w), Some e)"
  by (cases "try_block lib w") (simp add: loop_body_def)

lemma loop_body_posts:
  assumes "readline w = Inr bs" and "decode Ignore bs = Some line"
  shows "http_posts (fst (loop_body lib w)) =
     (if strip line = [] then []
      else case print_raises w (lit ''[+] RFID Tag Detected: '' @
                  upper (toupper lib) (strip line)) of
             Some e \<Rightarrow> []
           | None \<Rightarrow> [post_request (upper (toupper lib) (strip line))])"
proof (cases "strip line = []")
  case True
  with assms show ?thesis by (simp add: loop_body_Continue try_block_empty)
next
  case False
  have hq: "http_posts (fst (handler w lines)) = []" if "except_clauses e = Some lines"
    for e lines
    using clause_lines_quiet [OF that] by (simp add: handler_quiet)
  have raised: "http_posts (fst (loop_body lib w)) = http_posts evs"
    if "try_block lib w = (evs, Raise e)" for evs e
  proof (cases "except_clauses e")
    case None
    with that show ?thesis by (simp add: loop_body_uncaught)
  next
    case (Some lines)
    with that hq [OF Some] show ?thesis by (simp add: loop_body_caught http_posts_append)
  qed
  show ?thesis
  proof (cases "print_raises w (lit ''[+] RFID Tag Detected: '' @
      upper (toupper lib) (strip line))")
    case (Some e)
    from raised [OF try_block_print_raises [OF assms False Some]] False Some
    show ?thesis by simp
  next
    case None
    show ?thesis
    proof (cases "post w (upper (toupper lib) (strip line))")
      case (Inl e)
      from raised [OF try_block_post_raises [OF assms False None Inl]] False None
      show ?thesis by (simp add: post_request_def)
    next
      case (Inr resp)
      note tb = try_block_response [OF assms False None Inr]
      show ?thesis
      proof (cases "snd (handle_response lib w (upper (toupper lib) (strip line)) resp)")
        case n: None
        with tb have "snd (try_block lib w) = Normal" by simp
        from loop_body_Normal [OF this] False None show ?thesis
          by (simp add: tb http_posts_append handle_response_quiet post_request_def)
      next
        case (Some e)
        with tb have "try_block lib w = (fst (try_block lib w), Raise e)" by simp
        from raised [OF this] False None show ?thesis
          by (simp add: tb http_posts_append handle_response_quiet post_request_def)
      qed
    qed
  qed
qed



lemma loop_body_sleeps:
  "sleeps (fst (loop_body lib w)) = [] \<or> sleeps (fst (loop_body lib w)) = [1 / 10]"
proof (cases "snd (try_block lib w)")
  case Normal
  then show ?thesis by (simp add: loop_body_Normal sleeps_append try_block_quiet)
next
  case Continue
  then show ?thesis by (simp add: loop_body_Continue try_block_quiet)
next
  case (Raise x)
  show ?thesis
  proof (cases "except_clauses x")
    case None
    with Raise show ?thesis by (simp add: loop_body_uncaught try_block_quiet)
  next
    case (Some lines)
    with Raise clause_lines_quiet [OF Some] show ?thesis
      by (auto simp: loop_body_caught sleeps_append try_block_quiet handler_def pacing_def
          prints_quiet split: option.splits)
  qed
qed

section \<open>The loop and the script\<close>






















section \<open>Evaluating the concrete inputs\<close>

lemma decode_scan_bytes: "decode Ignore scan_bytes = Some (lit '' a1b2c3 '' @ [0x0A])"
  by (simp add: scan_bytes_def decode_def lit_def)

lemma strip_scan: "strip (lit '' a1b2c3 '' @ [0x0A]) = lit ''a1b2c3''"
  by (simp add: strip_def lit_def isspace_def)

lemma upper_scan: "upper (toupper lib0) (lit ''a1b2c3'') = lit ''A1B2C3''"
  by (simp add: upper_def upper_char_def lit_def lib0_def)

lemma scan_nonempty: "lit ''a1b2c3'' \<noteq> []"
  by (simp add: lit_def)

lemma decode_empty: "decode Ignore [] = Some []"
  by (simp add: decode_def)

lemma strip_empty: "strip [] = []"
  by (simp add: strip_def)

lemma decode_noise_bytes: "decode Ignore noise_bytes = Some (lit ''ABCD'' @ [0x0A])"
  by (simp add: noise_bytes_def decode_def lit_def)

lemma strip_noise: "strip (lit ''ABCD'' @ [0x0A]) = lit ''ABCD''"
  by (simp add: strip_def lit_def isspace_def)

lemma upper_noise: "upper (toupper lib0) (lit ''ABCD'') = lit ''ABCD''"
  by (simp add: upper_def upper_char_def lit_def lib0_def)

lemma noise_nonempty: "lit ''ABCD'' \<noteq> []"
  by (simp add: lit_def)

lemma decode_euro_bytes: "decode Ignore euro_bytes = Some [0x20AC, 0x35, 0x0A]"
  by (simp add: euro_bytes_def decode_def is_continuation_def second_of3_def)

lemma decode_euro_noise_bytes: "decode Ignore euro_noise_bytes = Some [0x20AC, 0x35, 0x0A]"
  by (simp add: euro_noise_bytes_def decode_def is_continuation_def second_of3_def)

lemma strip_euro: "strip [0x20AC, 0x35, 0x0A] = [0x20AC, 0x35]"
  by (simp add: strip_def isspace_def)

lemma upper_euro: "upper (toupper lib0) [0x20AC, 0x35] = [0x20AC, 0x35]"
  by (simp add: upper_def upper_char_def lib0_def)

lemma str_int_422: "str_int 422 = lit ''422''"
  by (simp add: str_int_def digits.simps lit_def)

lemma detected_scan_written:
  "utf8_stdout (lit ''[+] RFID Tag Detected: '' @ lit ''A1B2C3'') = None"
  "ascii_stdout (lit ''[+] RFID Tag Detected: '' @ lit ''A1B2C3'') = None"
  by (simp_all add: utf8_stdout_def ascii_stdout_def valid_scalar_def lit_def)

lemma detected_euro_raises:
  "ascii_stdout (lit ''[+] RFID Tag Detected: '' @ [0x20AC, 0x35]) =
     Some (Exn UnicodeEncodeError (lit ''ordinal not in range(128)''))"
  by (simp add: ascii_stdout_def lit_def)

lemma unexpected_written:
  "written ascii_stdout
     (unexpected_lines (Exn UnicodeEncodeError (lit ''ordinal not in range(128)'')))"
  by (simp add: unexpected_lines_def ascii_stdout_def lit_def)

lemma clause_lines_written:
  "written utf8_stdout timeout_lines" "written utf8_stdout connection_lines"
  "written utf8_stdout (serial_lines (Exn SerialException (lit ''device disconnected'')))"
  by (simp_all add: timeout_lines_def connection_lines_def serial_lines_def API_URL_def
      utf8_stdout_def valid_scalar_def lit_def)




lemma try_block_idle: "try_block lib0 step_idle = ([ReadLine], Continue)"
  by (rule try_block_empty [OF _ decode_empty strip_empty]) (simp add: step_idle_def)

lemma loop_body_idle: "loop_body lib0 step_idle = ([ReadLine], None)"
  using loop_body_Continue [of lib0 step_idle] by (simp add: try_block_idle)

lemma handle_response_200:
  "handle_response lib0 step_scan (lit ''A1B2C3'') resp_200 =
     ([Print (lit ''[+] Success: UID A1B2C3 processed by Laravel''),
       Print (lit ''[+] Server Response: ok'')], None)"
  by (simp add: handle_response_def ok_def report_success_def server_response_def
      resp_200_def format_value_def step_scan_def utf8_stdout_def valid_scalar_def lit_def)

lemma try_block_scan:
  "try_block lib0 step_scan =
     ([ReadLine, Print (lit ''[+] RFID Tag Detected: A1B2C3''), post_request (lit ''A1B2C3''),
       Print (lit ''[+] Success: UID A1B2C3 processed by Laravel''),
       Print (lit ''[+] Server Response: ok'')], Normal)"
proof -
  have r: "readline step_scan = Inr scan_bytes" by (simp add: step_scan_def)
  have ne: "strip (lit '' a1b2c3 '' @ [0x0A]) \<noteq> []" by (simp add: strip_scan scan_nonempty)
  have p: "print_raises step_scan (lit ''[+] RFID Tag Detected: '' @
      upper (toupper lib0) (strip (lit '' a1b2c3 '' @ [0x0A]))) = None"
    by (simp add: step_scan_def strip_scan upper_scan detected_scan_written)
  have q: "post step_scan (upper (toupper lib0) (strip (lit '' a1b2c3 '' @ [0x0A]))) =
      Inr resp_200"
    by (simp add: step_scan_def)
  note run = try_block_response [OF r decode_scan_bytes ne p q,
      unfolded strip_scan upper_scan handle_response_200]
  from run show ?thesis by (simp add: lit_def)
qed

lemma try_block_unplugged:
  "try_block lib0 step_unplugged =
     ([ReadLine], Raise (Exn SerialException (lit ''device disconnected'')))"
  by (rule try_block_readline_raises) (simp add: step_unplugged_def)

lemma loop_body_unplugged:
  "loop_body lib0 step_unplugged =
     ([ReadLine] @ serial_lines (Exn SerialException (lit ''device disconnected'')) @
      [Sleep (1 / 10)], None)"
proof -
  have c: "except_clauses (Exn SerialException (lit ''device disconnected'')) =
      Some (serial_lines (Exn SerialException (lit ''device disconnected'')))"
    by (simp add: except_clauses_def)
  have w: "written (print_raises step_unplugged)
      (serial_lines (Exn SerialException (lit ''device disconnected'')))"
    by (simp add: step_unplugged_def clause_lines_written)
  have i: "snd (pacing step_unplugged) = None" by (simp add: pacing_def step_unplugged_def)
  from loop_body_caught [of lib0 step_unplugged _ _, OF _ c] handler_written [OF w] i
  show ?thesis by (simp add: try_block_unplugged)
qed





lemma loop_body_euro:
  "loop_body lib0 step_euro =
     ([ReadLine] @
      unexpected_lines (Exn UnicodeEncodeError (lit ''ordinal not in range(128)'')) @
      [Sleep (1 / 10)], None)"
proof -
  have r: "readline step_euro = Inr euro_bytes" by (simp add: step_euro_def)
  have ne: "strip [0x20AC, 0x35, 0x0A] \<noteq> []" by (simp add: strip_euro)
  have p: "print_raises step_euro (lit ''[+] RFID Tag Detected: '' @
      upper (toupper lib0) (strip [0x20AC, 0x35, 0x0A])) =
      Some (Exn UnicodeEncodeError (lit ''ordinal not in range(128)''))"
    by (simp add: step_euro_def strip_euro upper_euro detected_euro_raises)
  note tb = try_block_print_raises [OF r decode_euro_bytes ne p]
  have c: "except_clauses (Exn UnicodeEncodeError (lit ''ordinal not in range(128)'')) =
      Some (unexpected_lines (Exn UnicodeEncodeError (lit ''ordinal not in range(128)'')))"
    by (simp add: except_clauses_def)
  have w: "written (print_raises step_euro)
      (unexpected_lines (Exn UnicodeEncodeError (lit ''ordinal not in range(128)'')))"
    by (simp add: step_euro_def unexpected_written)
  have i: "snd (pacing step_euro) = None" by (simp add: pacing_def step_euro_def)
  from loop_body_caught [of lib0 step_euro _ _, OF _ c] handler_written [OF w] i
  show ?thesis by (simp add: tb)
qed

lemma loop_body_euro_noise:
  "loop_body lib0 step_euro_noise =
     ([ReadLine] @
      unexpected_lines (Exn UnicodeEncodeError (lit ''ordinal not in range(128)'')) @
      [Sleep (1 / 10)], None)"
proof -
  have r: "readline step_euro_noise = Inr euro_noise_bytes" by (simp add: step_euro_noise_def)
  have ne: "strip [0x20AC, 0x35, 0x0A] \<noteq> []" by (simp add: strip_euro)
  have p: "print_raises step_euro_noise (lit ''[+] RFID Tag Detected: '' @
      upper (toupper lib0) (strip [0x20AC, 0x35, 0x0A])) =
      Some (Exn UnicodeEncodeError (lit ''ordinal not in range(128)''))"
    by (simp add: step_euro_noise_def strip_euro upper_euro detected_euro_raises)
  note tb = try_block_print_raises [OF r decode_euro_noise_bytes ne p]
  have c: "except_clauses (Exn UnicodeEncodeError (lit ''ordinal not in range(128)'')) =
      Some (unexpected_lines (Exn UnicodeEncodeError (lit ''ordinal not in range(128)'')))"
    by (simp add: except_clauses_def)
  have w: "written (print_raises step_euro_noise)
      (unexpected_lines (Exn UnicodeEncodeError (lit ''ordinal not in range(128)'')))"
    by (simp add: step_euro_noise_def unexpected_written)
  have i: "snd (pacing step_euro_noise) = None" by (simp add: pacing_def step_euro_noise_def)
  from loop_body_caught [of lib0 step_euro_noise _ _, OF _ c] handler_written [OF w] i
  show ?thesis by (simp add: tb)
qed










lemma report_success_200_html:
  "report_success lib0 step_html (lit ''A1B2C3'') resp_200_html =
     ([Print (lit ''[+] Success: UID A1B2C3 processed by Laravel'')], None)"
  by (simp add: report_success_def server_response_def
      resp_200_html_def step_html_def utf8_stdout_def valid_scalar_def lit_def)



section \<open>The claims\<close>

text \<open>
  C1, as the code has it. For every line read from the serial connection, decoding
  yields a text. When that text is empty after stripping, the loop body makes no HTTP
  submission. When it is non-empty, the line of line 122 is printed first: if that
  \<open>print\<close> writes it, exactly one submission follows, whose JSON payload carries the
  stripped text in upper case as \<open>uid\<close>; if it raises, no submission is made.
\<close>

theorem submitted_identifier:
  assumes "readline w = Inr bs"
  shows "\<exists>line. decode Ignore bs = Some line \<and>
     http_posts (fst (loop_body lib w)) =
       (if strip line = [] then []
        else case print_raises w (lit ''[+] RFID Tag Detected: '' @
                    upper (toupper lib) (strip line)) of
               Some e \<Rightarrow> []
             | None \<Rightarrow>
                 [HttpPost API_URL
                    (PyDict [(lit ''uid'', PyStr (upper (toupper lib) (strip line)))])
                    [(lit ''Accept'', lit ''application/json''),
                     (lit ''Content-Type'', lit ''application/json'')] 2])"
  using loop_body_posts [OF assms decode_Ignore_Some, of lib, unfolded post_request_def]
  by (simp add: decode_Ignore_Some)

theorem submitted_identifier_witness:
  "http_posts (fst (loop_body lib0 step_scan)) = [post_request (lit ''A1B2C3'')] \<and>
   http_posts (fst (loop_body lib0 step_idle)) = []"
proof -
  have r1: "readline step_scan = Inr scan_bytes" by (simp add: step_scan_def)
  have r2: "readline step_idle = Inr []" by (simp add: step_idle_def)
  have p: "print_raises step_scan (lit ''[+] RFID Tag Detected: '' @ lit ''A1B2C3'') = None"
    by (simp add: step_scan_def detected_scan_written)
  show ?thesis
    using submitted_identifier [OF r1, of lib0] submitted_identifier [OF r2, of lib0]
    by (simp add: decode_scan_bytes decode_empty strip_scan upper_scan strip_empty
        scan_nonempty post_request_def p)
qed

theorem no_submission_when_print_raises:
  "decode Ignore euro_bytes = Some [0x20AC, 0x35, 0x0A] \<and>
   strip [0x20AC, 0x35, 0x0A] = [0x20AC, 0x35] \<and>
   loop_body lib0 step_euro =
     ([ReadLine, Print (lit ''[!] Unexpected Error: ordinal not in range(128)''),
       Sleep (1 / 10)], None) \<and>
   http_posts (fst (loop_body lib0 step_euro)) = []"
  by (simp add: decode_euro_bytes strip_euro loop_body_euro unexpected_lines_def lit_def)

text \<open>
  C2, as the code has it. \<open>resp.ok\<close> is false for the status codes 400 to 599 only. For
  every response with such a status the error branch runs, never the success branch:
  it prints the numeric status with the excerpt of the body, then the failed
  identifier; when both lines are written they are followed by the pacing delay, and
  when a \<open>print\<close> raises, the exception goes to the \<open>except\<close> clauses. Every response with
  another status, also one outside 200 to 299 such as 304, takes the success branch.
\<close>

theorem rejected_on_error_status:
  assumes "readline w = Inr bs" and "decode Ignore bs = Some line" and "strip line \<noteq> []"
    and "print_raises w (lit ''[+] RFID Tag Detected: '' @ upper (toupper lib) (strip line)) =
      None"
    and "post w (upper (toupper lib) (strip line)) = Inr resp"
  shows "(400 \<le> status_code resp \<and> status_code resp < 600 \<longrightarrow>
      try_block lib w =
        ([ReadLine,
          Print (lit ''[+] RFID Tag Detected: '' @ upper (toupper lib) (strip line)),
          post_request (upper (toupper lib) (strip line))] @
         fst (prints (print_raises w) (report_error (upper (toupper lib) (strip line)) resp)),
         case snd (prints (print_raises w)
                     (report_error (upper (toupper lib) (strip line)) resp)) of
           None \<Rightarrow> Normal
         | Some e \<Rightarrow> Raise e)) \<and>
     (\<forall>e. 400 \<le> status_code resp \<and> status_code resp < 600 \<and>
        print_raises w (lit ''[!] API Error '' @ str_int (status_code resp) @ lit '': '' @
                        error_msg resp) = Some e \<longrightarrow>
        try_block lib w =
          ([ReadLine,
            Print (lit ''[+] RFID Tag Detected: '' @ upper (toupper lib) (strip line)),
            post_request (upper (toupper lib) (strip line))], Raise e)) \<and>
     (\<forall>e. 400 \<le> status_code resp \<and> status_code resp < 600 \<and>
        print_raises w (lit ''[!] API Error '' @ str_int (status_code resp) @ lit '': '' @
                        error_msg resp) = None \<and>
        print_raises w (lit ''[!] Failed to process UID: '' @
                        upper (toupper lib) (strip line)) = Some e \<longrightarrow>
        try_block lib w =
          ([ReadLine,
            Print (lit ''[+] RFID Tag Detected: '' @ upper (toupper lib) (strip line)),
            post_request (upper (toupper lib) (strip line)),
            Print (lit ''[!] API Error '' @ str_int (status_code resp) @ lit '': '' @
                   error_msg resp)], Raise e)) \<and>
     (400 \<le> status_code resp \<and> status_code resp < 600 \<and>
      written (print_raises w) (report_error (upper (toupper lib) (strip line)) resp) \<longrightarrow>
      fst (loop_body lib w) =
        [ReadLine,
         Print (lit ''[+] RFID Tag Detected: '' @ upper (toupper lib) (strip line)),
         post_request (upper (toupper lib) (strip line)),
         Print (lit ''[!] API Error '' @ str_int (status_code resp) @ lit '': '' @
                error_msg resp),
         Print (lit ''[!] Failed to process UID: '' @ upper (toupper lib) (strip line)),
         Sleep (1 / 10)] \<and>
      Print (lit ''[+] Success: UID '' @ upper (toupper lib) (strip line) @
             lit '' processed by Laravel'') \<notin> set (fst (loop_body lib w))) \<and>
     (\<not> (400 \<le> status_code resp \<and> status_code resp < 600) \<longrightarrow>
      try_block lib w =
        ([ReadLine,
          Print (lit ''[+] RFID Tag Detected: '' @ upper (toupper lib) (strip line)),
          post_request (upper (toupper lib) (strip line))] @
         fst (report_success lib w (upper (toupper lib) (strip line)) resp),
         case snd (report_success lib w (upper (toupper lib) (strip line)) resp) of
           None \<Rightarrow> Normal
         | Some e \<Rightarrow> Raise e))"
proof -
  note tb = try_block_response [OF assms]
  have err: "try_block lib w =
        ([ReadLine,
          Print (lit ''[+] RFID Tag Detected: '' @ upper (toupper lib) (strip line)),
          post_request (upper (toupper lib) (strip line))] @
         fst (prints (print_raises w) (report_error (upper (toupper lib) (strip line)) resp)),
         case snd (prints (print_raises w)
                     (report_error (upper (toupper lib) (strip line)) resp)) of
           None \<Rightarrow> Normal
         | Some e \<Rightarrow> Raise e)"
    if "400 \<le> status_code resp" "status_code resp < 600"
    using that by (simp add: tb handle_response_def ok_def)
  have first: "try_block lib w =
          ([ReadLine,
            Print (lit ''[+] RFID Tag Detected: '' @ upper (toupper lib) (strip line)),
            post_request (upper (toupper lib) (strip line))], Raise e)"
    if s: "400 \<le> status_code resp" "status_code resp < 600"
      and p: "print_raises w (lit ''[!] API Error '' @ str_int (status_code resp) @ lit '': '' @
                        error_msg resp) = Some e" for e
    using err [OF s] p by (simp add: report_error_def)
  have second: "try_block lib w =
          ([ReadLine,
            Print (lit ''[+] RFID Tag Detected: '' @ upper (toupper lib) (strip line)),
            post_request (upper (toupper lib) (strip line)),
            Print (lit ''[!] API Error '' @ str_int (status_code resp) @ lit '': '' @
                   error_msg resp)], Raise e)"
    if s: "400 \<le> status_code resp" "status_code resp < 600"
      and p: "print_raises w (lit ''[!] API Error '' @ str_int (status_code resp) @ lit '': '' @
                        error_msg resp) = None"
        "print_raises w (lit ''[!] Failed to process UID: '' @
                        upper (toupper lib) (strip line)) = Some e" for e
    using err [OF s] p by (simp add: report_error_def)
  have rejected: "fst (loop_body lib w) =
        [ReadLine,
         Print (lit ''[+] RFID Tag Detected: '' @ upper (toupper lib) (strip line)),
         post_request (upper (toupper lib) (strip line)),
         Print (lit ''[!] API Error '' @ str_int (status_code resp) @ lit '': '' @
                error_msg resp),
         Print (lit ''[!] Failed to process UID: '' @ upper (toupper lib) (strip line)),
         Sleep (1 / 10)]"
    if s: "400 \<le> status_code resp" "status_code resp < 600"
      and wr: "written (print_raises w) (report_error (upper (toupper lib) (strip line)) resp)"
  proof -
    from err [OF s] prints_written [OF wr]
    have t: "try_block lib w =
        ([ReadLine,
          Print (lit ''[+] RFID Tag Detected: '' @ upper (toupper lib) (strip line)),
          post_request (upper (toupper lib) (strip line))] @
         report_error (upper (toupper lib) (strip line)) resp, Normal)"
      by simp
    then have "snd (try_block lib w) = Normal" by simp
    from loop_body_Normal [OF this] show ?thesis by (simp add: t report_error_def)
  qed
  have no_success: "Print (lit ''[+] Success: UID '' @ upper (toupper lib) (strip line) @
             lit '' processed by Laravel'') \<notin> set (fst (loop_body lib w))"
    if s: "400 \<le> status_code resp" "status_code resp < 600"
      and wr: "written (print_raises w) (report_error (upper (toupper lib) (strip line)) resp)"
    by (simp add: rejected [OF that] post_request_def lit_def)
  have delivered: "try_block lib w =
        ([ReadLine,
          Print (lit ''[+] RFID Tag Detected: '' @ upper (toupper lib) (strip line)),
          post_request (upper (toupper lib) (strip line))] @
         fst (report_success lib w (upper (toupper lib) (strip line)) resp),
         case snd (report_success lib w (upper (toupper lib) (strip line)) resp) of
           None \<Rightarrow> Normal
         | Some e \<Rightarrow> Raise e)"
    if "\<not> (400 \<le> status_code resp \<and> status_code resp < 600)"
    using that by (simp add: tb handle_response_def ok_def)
  from err first second rejected no_success delivered show ?thesis by blast
qed

theorem rejected_on_error_status_witness:
  "fst (loop_body lib0 step_rejected) =
     [ReadLine,
      Print (lit ''[+] RFID Tag Detected: A1B2C3''),
      post_request (lit ''A1B2C3''),
      Print (lit ''[!] API Error 422: duplicate tag'' @ [0x2026]),
      Print (lit ''[!] Failed to process UID: A1B2C3''),
      Sleep (1 / 10)] \<and>
   try_block lib0 step_rejected_ascii =
     ([ReadLine, Print (lit ''[+] RFID Tag Detected: A1B2C3''), post_request (lit ''A1B2C3'')],
      Raise (Exn UnicodeEncodeError (lit ''ordinal not in range(128)''))) \<and>
   try_block lib0 step_html =
     ([ReadLine, Print (lit ''[+] RFID Tag Detected: A1B2C3''), post_request (lit ''A1B2C3''),
       Print (lit ''[+] Success: UID A1B2C3 processed by Laravel'')], Normal)"
proof -
  have r'': "readline step_html = Inr scan_bytes" by (simp add: step_html_def)
  have d'': "print_raises step_html (lit ''[+] RFID Tag Detected: '' @
      upper (toupper lib0) (strip (lit '' a1b2c3 '' @ [0x0A]))) = None"
    by (simp add: step_html_def strip_scan upper_scan detected_scan_written)
  have p'': "post step_html (upper (toupper lib0) (strip (lit '' a1b2c3 '' @ [0x0A]))) =
      Inr resp_200_html"
    by (simp add: step_html_def)
  have c'': "status_code resp_200_html = 200" by (simp add: resp_200_html_def)
  have r': "readline step_rejected_ascii = Inr scan_bytes"
    by (simp add: step_rejected_ascii_def)
  have pa: "print_raises step_rejected_ascii = ascii_stdout"
    by (simp add: step_rejected_ascii_def)
  have d': "print_raises step_rejected_ascii (lit ''[+] RFID Tag Detected: '' @
      upper (toupper lib0) (strip (lit '' a1b2c3 '' @ [0x0A]))) = None"
    by (simp add: pa strip_scan upper_scan detected_scan_written)
  have p': "post step_rejected_ascii (upper (toupper lib0) (strip (lit '' a1b2c3 '' @ [0x0A]))) =
      Inr resp_422"
    by (simp add: step_rejected_ascii_def)
  have q: "prints ascii_stdout (report_error (lit ''A1B2C3'') resp_422) =
      ([], Some (Exn UnicodeEncodeError (lit ''ordinal not in range(128)'')))"
    by (simp add: report_error_def error_msg_def resp_422_def ascii_stdout_def lit_def)
  have r: "readline step_rejected = Inr scan_bytes" by (simp add: step_rejected_def)
  have ne: "strip (lit '' a1b2c3 '' @ [0x0A]) \<noteq> []" by (simp add: strip_scan scan_nonempty)
  have d: "print_raises step_rejected (lit ''[+] RFID Tag Detected: '' @
      upper (toupper lib0) (strip (lit '' a1b2c3 '' @ [0x0A]))) = None"
    by (simp add: step_rejected_def strip_scan upper_scan detected_scan_written)
  have p: "post step_rejected (upper (toupper lib0) (strip (lit '' a1b2c3 '' @ [0x0A]))) =
      Inr resp_422"
    by (simp add: step_rejected_def)
  have m: "error_msg resp_422 = lit ''duplicate tag'' @ [0x2026]"
    by (simp add: error_msg_def resp_422_def lit_def)
  have c: "status_code resp_422 = 422" by (simp add: resp_422_def)
  have wr: "written (print_raises step_rejected) (report_error (lit ''A1B2C3'') resp_422)"
    by (simp add: step_rejected_def report_error_def m c str_int_422 utf8_stdout_def
        valid_scalar_def lit_def)
  note run = rejected_on_error_status [OF r decode_scan_bytes ne d p,
      unfolded strip_scan upper_scan]
  from run wr have "fst (loop_body lib0 step_rejected) =
     [ReadLine,
      Print (lit ''[+] RFID Tag Detected: '' @ lit ''A1B2C3''),
      post_request (lit ''A1B2C3''),
      Print (lit ''[!] API Error '' @ str_int (status_code resp_422) @ lit '': '' @
             error_msg resp_422),
      Print (lit ''[!] Failed to process UID: '' @ lit ''A1B2C3''),
      Sleep (1 / 10)]"
    by (simp add: c)
  then have a: "fst (loop_body lib0 step_rejected) =
     [ReadLine,
      Print (lit ''[+] RFID Tag Detected: A1B2C3''),
      post_request (lit ''A1B2C3''),
      Print (lit ''[!] API Error 422: duplicate tag'' @ [0x2026]),
      Print (lit ''[!] Failed to process UID: A1B2C3''),
      Sleep (1 / 10)]"
    by (simp add: m c str_int_422 lit_def)
  note run' = rejected_on_error_status [OF r' decode_scan_bytes ne d' p',
      unfolded strip_scan upper_scan pa q, THEN conjunct1]
  from run' c have b: "try_block lib0 step_rejected_ascii =
     ([ReadLine, Print (lit ''[+] RFID Tag Detected: A1B2C3''), post_request (lit ''A1B2C3'')],
      Raise (Exn UnicodeEncodeError (lit ''ordinal not in range(128)'')))"
    by (simp add: lit_def)
  note run'' = rejected_on_error_status [OF r'' decode_scan_bytes ne d'' p'',
      unfolded strip_scan upper_scan report_success_200_html, THEN conjunct2, THEN conjunct2,
      THEN conjunct2, THEN conjunct2]
  from run'' c'' have c3: "try_block lib0 step_html =
     ([ReadLine, Print (lit ''[+] RFID Tag Detected: A1B2C3''), post_request (lit ''A1B2C3''),
       Print (lit ''[+] Success: UID A1B2C3 processed by Laravel'')], Normal)"
    by (simp add: lit_def)
  from a b c3 show ?thesis by simp
qed

theorem success_branch_on_304:
  "\<not> (200 \<le> status_code resp_304 \<and> status_code resp_304 \<le> 299) \<and>
   fst (loop_body lib0 step_not_modified) =
     [ReadLine,
      Print (lit ''[+] RFID Tag Detected: A1B2C3''),
      post_request (lit ''A1B2C3''),
      Print (lit ''[+] Success: UID A1B2C3 processed by Laravel''),
      Sleep (1 / 10)]"
proof -
  have r: "readline step_not_modified = Inr scan_bytes" by (simp add: step_not_modified_def)
  have ne: "strip (lit '' a1b2c3 '' @ [0x0A]) \<noteq> []" by (simp add: strip_scan scan_nonempty)
  have d: "print_raises step_not_modified (lit ''[+] RFID Tag Detected: '' @
      upper (toupper lib0) (strip (lit '' a1b2c3 '' @ [0x0A]))) = None"
    by (simp add: step_not_modified_def strip_scan upper_scan detected_scan_written)
  have p: "post step_not_modified (upper (toupper lib0) (strip (lit '' a1b2c3 '' @ [0x0A]))) =
      Inr resp_304"
    by (simp add: step_not_modified_def)
  have h: "handle_response lib0 step_not_modified (lit ''A1B2C3'') resp_304 =
      ([Print (lit ''[+] Success: UID A1B2C3 processed by Laravel'')], None)"
    by (simp add: handle_response_def ok_def report_success_def server_response_def
        resp_304_def step_not_modified_def utf8_stdout_def valid_scalar_def lit_def)
  note run = try_block_response [OF r decode_scan_bytes ne d p,
      unfolded strip_scan upper_scan h]
  from run have tb: "try_block lib0 step_not_modified =
     ([ReadLine, Print (lit ''[+] RFID Tag Detected: A1B2C3''), post_request (lit ''A1B2C3''),
       Print (lit ''[+] Success: UID A1B2C3 processed by Laravel'')], Normal)"
    by (simp add: lit_def)
  have "loop_body lib0 step_not_modified =
     (fst (try_block lib0 step_not_modified) @ [Sleep (1 / 10)], snd (pacing step_not_modified))"
    by (rule loop_body_Normal) (simp add: tb)
  then show ?thesis by (simp add: tb resp_304_def)
qed

text \<open>
  C3, as the code has it. The \<open>try\<close> block ends with \<open>continue\<close> exactly when the line read
  is empty after decoding and stripping; the loop body is then the read alone, with no
  submission and no pacing delay, and the next read follows at once. In every other pass
  that stays in the loop (the block ran to its end, or raised an exception that an
  \<open>except\<close> clause catches and logs) the pacing delay of 0.1 is the last call of the pass
  and the only delay in it.
\<close>

theorem pacing_unless_empty_read:
  "(snd (try_block lib w) = Continue \<longleftrightarrow>
      (\<exists>bs line. readline w = Inr bs \<and> decode Ignore bs = Some line \<and> strip line = [])) \<and>
   (snd (try_block lib w) = Continue \<longrightarrow> loop_body lib w = ([ReadLine], None)) \<and>
   (snd (try_block lib w) = Normal \<longrightarrow>
      fst (loop_body lib w) = fst (try_block lib w) @ [Sleep (1 / 10)]) \<and>
   (\<forall>e. snd (try_block lib w) = Raise e \<and> isinstance_Exception e \<longrightarrow>
      (\<exists>printed. except_clauses e = Some printed \<and> sleeps printed = [] \<and>
         (written (print_raises w) printed \<longrightarrow>
            fst (loop_body lib w) = fst (try_block lib w) @ printed @ [Sleep (1 / 10)]))) \<and>
   sleeps (fst (try_block lib w)) = [] \<and>
   (snd (loop_body lib w) = None \<and> snd (try_block lib w) \<noteq> Continue \<longrightarrow>
      (\<exists>before. fst (loop_body lib w) = before @ [Sleep (1 / 10)] \<and> sleeps before = []))"
proof -
  have a: "snd (try_block lib w) = Continue \<longleftrightarrow>
      (\<exists>bs line. readline w = Inr bs \<and> decode Ignore bs = Some line \<and> strip line = [])"
    by (rule try_block_Continue)
  have b: "loop_body lib w = ([ReadLine], None)" if c: "snd (try_block lib w) = Continue"
  proof -
    from c a obtain bs line where "readline w = Inr bs" "decode Ignore bs = Some line"
      "strip line = []"
      by blast
    then have "try_block lib w = ([ReadLine], Continue)" by (rule try_block_empty)
    with loop_body_Continue [OF c] show ?thesis by simp
  qed
  have c: "fst (loop_body lib w) = fst (try_block lib w) @ [Sleep (1 / 10)]"
    if "snd (try_block lib w) = Normal"
    using that by (simp add: loop_body_Normal)
  have d: "\<exists>printed. except_clauses e = Some printed \<and> sleeps printed = [] \<and>
         (written (print_raises w) printed \<longrightarrow>
            fst (loop_body lib w) = fst (try_block lib w) @ printed @ [Sleep (1 / 10)])"
    if r: "snd (try_block lib w) = Raise e" and ex: "isinstance_Exception e" for e
  proof -
    from ex obtain printed where p: "except_clauses e = Some printed"
      by (simp add: except_clauses_Exception)
    from loop_body_caught [OF r p] clause_lines_quiet [OF p] handler_written [of w printed] p
    show ?thesis by simp
  qed
  have e: "\<exists>before. fst (loop_body lib w) = before @ [Sleep (1 / 10)] \<and> sleeps before = []"
    if stay: "snd (loop_body lib w) = None" and nc: "snd (try_block lib w) \<noteq> Continue"
  proof (cases "snd (try_block lib w)")
    case Normal
    from c [OF this] show ?thesis by (auto simp: try_block_quiet)
  next
    case Continue
    with nc show ?thesis by simp
  next
    case (Raise x)
    show ?thesis
    proof (cases "except_clauses x")
      case None
      from loop_body_uncaught [OF Raise None] stay show ?thesis by simp
    next
      case (Some printed)
      note lb = loop_body_caught [OF Raise Some]
      with stay have "snd (handler w printed) = None" by simp
      from handler_None [OF this] lb clause_lines_quiet [OF Some] show ?thesis
        by (auto simp: sleeps_append try_block_quiet)
    qed
  qed
  from a b c d e show ?thesis by (simp add: try_block_quiet)
qed

theorem pacing_unless_empty_read_witness:
  "loop_body lib0 step_idle = ([ReadLine], None) \<and>
   fst (loop_body lib0 step_scan) =
     [ReadLine, Print (lit ''[+] RFID Tag Detected: A1B2C3''), post_request (lit ''A1B2C3''),
      Print (lit ''[+] Success: UID A1B2C3 processed by Laravel''),
      Print (lit ''[+] Server Response: ok''), Sleep (1 / 10)] \<and>
   (\<exists>printed. fst (loop_body lib0 step_unplugged) = [ReadLine] @ printed @ [Sleep (1 / 10)] \<and>
      sleeps printed = [])"
proof -
  have ex: "isinstance_Exception (Exn SerialException (lit ''device disconnected''))" by simp
  have c: "except_clauses (Exn SerialException (lit ''device disconnected'')) =
      Some (serial_lines (Exn SerialException (lit ''device disconnected'')))"
    by (simp add: except_clauses_def)
  have w: "written (print_raises step_unplugged)
      (serial_lines (Exn SerialException (lit ''device disconnected'')))"
    by (simp add: step_unplugged_def clause_lines_written)
  show ?thesis
    using pacing_unless_empty_read [of lib0 step_idle]
      pacing_unless_empty_read [of lib0 step_scan]
      pacing_unless_empty_read [of lib0 step_unplugged] ex w
    by (simp add: try_block_idle try_block_scan try_block_unplugged c)
qed

theorem empty_read_skips_pacing:
  "fst (main_loop lib0 [step_idle, step_idle]) = [ReadLine, ReadLine] \<and>
   sleeps (fst (main_loop lib0 [step_idle, step_idle])) = []"
  by (simp add: loop_body_idle)

text \<open>
  C4, as the code has it. The excerpt logged for an error response with a non-empty body
  is the first 120 characters of the body followed by the marker U+2026, whatever the
  length of the body, so it has at most 121 characters; with an empty body it is the
  reason phrase. It is the text that follows the status in the logged line.
\<close>

theorem excerpt_always_marked:
  "(resp_text resp \<noteq> [] \<longrightarrow>
      error_msg resp = take 120 (resp_text resp) @ [0x2026] \<and> length (error_msg resp) \<le> 121) \<and>
   (resp_text resp = [] \<longrightarrow> error_msg resp = reason resp) \<and>
   hd (report_error uid resp) =
     Print (lit ''[!] API Error '' @ str_int (status_code resp) @ lit '': '' @ error_msg resp)"
  by (simp add: error_msg_def report_error_def)

theorem excerpt_always_marked_witness:
  "error_msg resp_422 = lit ''duplicate tag'' @ [0x2026] \<and> length (error_msg resp_422) = 14 \<and>
   error_msg resp_500 = lit ''Internal Server Error''"
  using excerpt_always_marked [of resp_422 "[]"] excerpt_always_marked [of resp_500 "[]"]
  by (simp add: resp_422_def resp_500_def lit_def)

theorem short_body_gets_marker:
  "\<not> length (resp_text resp_422) > 120 \<and>
   error_msg resp_422 = lit ''duplicate tag'' @ [0x2026] \<and>
   error_msg resp_422 \<noteq> take 120 (resp_text resp_422)"
  by (simp add: error_msg_def resp_422_def lit_def)















text \<open>
  C10, as the code has it. Decoding with \<open>errors='ignore'\<close> never raises: for every byte
  sequence it returns the code points of the well-formed UTF-8 sequences in it, in
  order, and nothing for the malformed ones. The result is what strict decoding returns
  for the input with the malformed bytes removed; the UTF-8 form of every text of
  scalar values decodes to that text, also with a byte that no sequence contains put
  between two such texts. A line read from the serial port is therefore always
  normalised; when what remains after stripping is non-empty it is submitted if the line
  of line 122 is written, and not submitted if that \<open>print\<close> raises.
\<close>

theorem decode_ignore_drops_malformed:
  "decode Ignore bs = Some (wellformed_codepoints (utf8_segments bs)) \<and>
   decode Strict (wellformed_bytes (utf8_segments bs)) =
     Some (wellformed_codepoints (utf8_segments bs)) \<and>
   subseq (wellformed_bytes (utf8_segments bs)) bs \<and>
   segments_ok (utf8_segments bs) \<and>
   concat (map segment_bytes (utf8_segments bs)) = bs \<and>
   (list_all valid_scalar s \<longrightarrow> decode Ignore (encode s) = Some s) \<and>
   (list_all valid_scalar s1 \<and> list_all valid_scalar s2 \<and> never_valid b \<longrightarrow>
      decode Ignore (encode s1 @ b # encode s2) = Some (s1 @ s2)) \<and>
   (readline w = Inr bs \<longrightarrow>
      http_posts (fst (loop_body lib w)) =
        (if strip (wellformed_codepoints (utf8_segments bs)) = [] then []
         else case print_raises w (lit ''[+] RFID Tag Detected: '' @
                     upper (toupper lib) (strip (wellformed_codepoints (utf8_segments bs)))) of
                Some e \<Rightarrow> []
              | None \<Rightarrow>
                  [post_request
                     (upper (toupper lib)
                        (strip (wellformed_codepoints (utf8_segments bs))))]))"
  using loop_body_posts [OF _ decode_Ignore_Some, of w bs lib]
    decode_encode [of s Ignore] decode_Ignore_encode_noise [of s1 s2 b]
  by (simp add: decode_Ignore_Some decode_Strict_kept kept_subseq utf8_segments_ok
      utf8_segments_cover)

theorem decode_ignore_drops_malformed_witness:
  "decode Ignore noise_bytes = Some (lit ''ABCD'' @ [0x0A]) \<and>
   decode Strict noise_bytes = None \<and>
   decode Replace noise_bytes = Some (lit ''AB'' @ [0xFFFD] @ lit ''CD'' @ [0x0A]) \<and>
   decode Strict [0x41, 0x42, 0x43, 0x44, 0x0A] = Some (lit ''ABCD'' @ [0x0A]) \<and>
   encode [0x20AC] = [0xE2, 0x82, 0xAC] \<and>
   decode Ignore ([0xE2, 0x82, 0xAC] @ 0xFF # [0xE2, 0x82, 0xAC]) = Some [0x20AC, 0x20AC] \<and>
   decode Ignore [0xE2, 0x82, 0x41] = Some [0x41] \<and>
   decode Replace [0xE2, 0x82, 0x41] = Some [0xFFFD, 0x41] \<and>
   http_posts (fst (loop_body lib0 step_noise)) = [post_request (lit ''ABCD'')]"
proof -
  have r: "readline step_noise = Inr noise_bytes" by (simp add: step_noise_def)
  have d: "wellformed_codepoints (utf8_segments noise_bytes) = lit ''ABCD'' @ [0x0A]"
    using decode_Ignore_Some [of noise_bytes] by (simp add: decode_noise_bytes)
  have k: "wellformed_bytes (utf8_segments noise_bytes) = [0x41, 0x42, 0x43, 0x44, 0x0A]"
    by (simp add: noise_bytes_def)
  have o: "decode Strict noise_bytes = None"
      "decode Replace noise_bytes = Some (lit ''AB'' @ [0xFFFD] @ lit ''CD'' @ [0x0A])"
    by (simp_all add: noise_bytes_def decode_def lit_def)
  have t: "decode Ignore [0xE2, 0x82, 0x41] = Some [0x41]"
      "decode Replace [0xE2, 0x82, 0x41] = Some [0xFFFD, 0x41]"
    by (simp_all add: decode_def is_continuation_def second_of3_def)
  have p: "print_raises step_noise (lit ''[+] RFID Tag Detected: '' @ lit ''ABCD'') = None"
    by (simp add: step_noise_def utf8_stdout_def valid_scalar_def lit_def)
  have enc: "encode [0x20AC] = [0xE2, 0x82, 0xAC]"
    by (simp add: encode_def utf8_encode_def byte_of_def)
  have v: "list_all valid_scalar [0x20AC]" "never_valid 0xFF"
    by (simp_all add: valid_scalar_def never_valid_def)
  note run = decode_ignore_drops_malformed [of noise_bytes "[0x20AC]" "[0x20AC]" "[0x20AC]"
      "0xFF" step_noise lib0, unfolded d k strip_noise upper_noise enc]
  from run r o p v enc t show ?thesis by (simp add: noise_nonempty)
qed

theorem garbled_line_not_submitted:
  "decode Ignore euro_noise_bytes = Some [0x20AC, 0x35, 0x0A] \<and>
   strip [0x20AC, 0x35, 0x0A] = [0x20AC, 0x35] \<and>
   loop_body lib0 step_euro_noise =
     ([ReadLine, Print (lit ''[!] Unexpected Error: ordinal not in range(128)''),
       Sleep (1 / 10)], None) \<and>
   http_posts (fst (loop_body lib0 step_euro_noise)) = []"
  by (simp add: decode_euro_noise_bytes strip_euro loop_body_euro_noise unexpected_lines_def
      lit_def)

end
